theory Spec2Isabelle
  imports Complex_Main "HOL-Library.Word"
begin

unbundle bit_operations_syntax

section \<open>Waveforms (src/jswrap\_waveform.c)\<close>

subsection \<open>Values the wrapper handles\<close>

type_synonym JsVarRef = nat
type_synonym JsSysTime = int
type_synonym Pin = nat

text \<open>
  A \<open>JsVarFloat\<close> is a C double: the finite values are reals and the three special
  values are constructors. The wrapper classifies a double (\<open>isfinite\<close>, \<open><\<close>, \<open>>\<close>),
  which is computed here, and divides two doubles, which rounds: the division the
  wrapper performs is a parameter of the model (\<open>double_div\<close> below). \<open>float_div\<close> is
  the quotient without rounding; only concrete runs use it, on operands whose quotient is a
  double.
\<close>

datatype JsVarFloat = Finite real | PosInf | NegInf | NaN

fun isfinite :: "JsVarFloat \<Rightarrow> bool" where
  "isfinite (Finite x) = True"
| "isfinite PosInf = False"
| "isfinite NegInf = False"
| "isfinite NaN = False"

fun float_less :: "JsVarFloat \<Rightarrow> JsVarFloat \<Rightarrow> bool" where
  "float_less NaN b = False"
| "float_less a NaN = False"
| "float_less (Finite x) (Finite y) = (x < y)"
| "float_less (Finite x) PosInf = True"
| "float_less (Finite x) NegInf = False"
| "float_less PosInf b = False"
| "float_less NegInf (Finite y) = True"
| "float_less NegInf PosInf = True"
| "float_less NegInf NegInf = False"

fun float_div :: "JsVarFloat \<Rightarrow> JsVarFloat \<Rightarrow> JsVarFloat" where
  "float_div NaN b = NaN"
| "float_div a NaN = NaN"
| "float_div (Finite x) (Finite y) =
     (if y = 0 then (if x = 0 then NaN else if 0 < x then PosInf else NegInf)
      else Finite (x / y))"
| "float_div (Finite x) PosInf = Finite 0"
| "float_div (Finite x) NegInf = Finite 0"
| "float_div PosInf (Finite y) = (if 0 \<le> y then PosInf else NegInf)"
| "float_div NegInf (Finite y) = (if 0 \<le> y then NegInf else PosInf)"
| "float_div PosInf b = NaN"
| "float_div NegInf b = NaN"

text \<open>
  The variables a Waveform's buffer slots hold: nothing (the null pointer, which is
  JavaScript's undefined), a flat string of bytes, or an ArrayBuffer (or a view of one)
  whose \<open>firstChild\<close> is the variable it is laid over. Each variable carries its reference;
  strings and ArrayBuffers carry their length in bytes.
\<close>

datatype JsVar =
    JsUndefined
  | JsString JsVarRef nat
  | JsArrayBuffer JsVarRef nat JsVar

fun jsvIsUndefined :: "JsVar \<Rightarrow> bool" where
  "jsvIsUndefined JsUndefined = True"
| "jsvIsUndefined v = False"

fun jsvGetRef :: "JsVar \<Rightarrow> JsVarRef" where
  "jsvGetRef JsUndefined = 0"
| "jsvGetRef (JsString r n) = r"
| "jsvGetRef (JsArrayBuffer r n b) = r"

fun jsvGetLength :: "JsVar \<Rightarrow> nat" where
  "jsvGetLength JsUndefined = 0"
| "jsvGetLength (JsString r n) = n"
| "jsvGetLength (JsArrayBuffer r n b) = n"

text \<open>
  The \<open>options\<close> argument as the wrapper inspects it: undefined, an object (given by the
  children the caller reads from it, each already converted by \<open>jsvGetBool\<close> or
  \<open>jsvGetFloat\<close>; an absent child reads as false and as NaN), or any other value.
\<close>

datatype 'a options = Undefined | Object 'a | NotObject

record start_options =
  opt_time :: JsVarFloat
  opt_repeat :: bool

text \<open>
  A Waveform object, by its children: \<open>buffer\<close>, \<open>buffer2\<close> (undefined when absent),
  \<open>running\<close> (read through \<open>jsvGetBool\<close>, absent reads false), \<open>freq\<close> and
  \<open>currentBuffer\<close> (absent until first written).
\<close>

record Waveform =
  w_buffer :: JsVar
  w_buffer2 :: JsVar
  w_running :: bool
  w_freq :: "JsVarFloat option"
  w_currentBuffer :: "int option"

datatype UtilTimerEventType = UET_WRITE_BYTE | UET_READ_BYTE

text \<open>The fields of a buffer timer task; a \<open>nextBuffer\<close> of 0 is no next buffer.\<close>

record UtilTimerTask =
  task_time :: JsSysTime
  task_repeatInterval :: JsSysTime
  task_pin :: Pin
  task_currentBuffer :: JsVarRef
  task_nextBuffer :: JsVarRef
  task_type :: UtilTimerEventType

datatype console_msg = JsError string | JsWarn string

text \<open>
  The interpreter state the wrapper reads and writes: the Waveform objects by reference,
  the hidden array of active Waveforms in the root (\<open>None\<close> until it is first created),
  the state of the utility timer, the queue filled by \<open>jsiQueueObjectCallbacks\<close>
  (object, callback name, argument) and the console.
\<close>

record 'r js_state =
  objs :: "JsVarRef \<Rightarrow> Waveform"
  waveforms :: "JsVarRef list option"
  timer :: 'r
  queue :: "(JsVarRef \<times> string \<times> JsVar) list"
  console :: "console_msg list"

text \<open>
  The functions of jstimer.c and jshardware.c that the wrapper calls are not part of the
  sources at hand; they are parameters of the model. The timer functions act on the
  timer's state \<open>'r\<close>. Two more parameters stand for what the model does not compute:
  \<open>double_div\<close>, the division of two doubles, and \<open>array_created\<close>, whether
  \<open>jsvObjectGetChild(execInfo.root, JSI_WAVEFORM_NAME, JSV_ARRAY)\<close> can create the hidden
  array when it is absent (it returns 0 when the interpreter has no variable left).
\<close>

record 'r extern =
  jshIsPinValid :: "Pin \<Rightarrow> bool"
  jshPinAnalog :: "Pin \<Rightarrow> JsVarFloat"
  jshGetSystemTime :: JsSysTime
  jshGetTimeFromMilliseconds :: "JsVarFloat \<Rightarrow> JsSysTime"
  jstStartSignal :: "'r \<Rightarrow> JsSysTime \<Rightarrow> JsSysTime \<Rightarrow> Pin \<Rightarrow> JsVar \<Rightarrow> JsVar
                        \<Rightarrow> UtilTimerEventType \<Rightarrow> bool \<times> 'r"
  jstGetLastBufferTimerTask :: "'r \<Rightarrow> JsVar \<Rightarrow> UtilTimerTask option"
  jstStopBufferTimerTask :: "'r \<Rightarrow> JsVar \<Rightarrow> bool \<times> 'r"
  double_div :: "JsVarFloat \<Rightarrow> JsVarFloat \<Rightarrow> JsVarFloat"
  array_created :: bool

definition jsErrorMsg :: "console_msg \<Rightarrow> 'r js_state \<Rightarrow> 'r js_state" where
  "jsErrorMsg m s = s\<lparr>console := console s @ [m]\<rparr>"

definition jsiQueueObjectCallbacks ::
  "JsVarRef \<Rightarrow> string \<Rightarrow> JsVar \<Rightarrow> 'r js_state \<Rightarrow> 'r js_state" where
  "jsiQueueObjectCallbacks obj name arg s = s\<lparr>queue := queue s @ [(obj, name, arg)]\<rparr>"

definition active_set :: "'r js_state \<Rightarrow> JsVarRef list" where
  "active_set s = (case waveforms s of None \<Rightarrow> [] | Some ws \<Rightarrow> ws)"

definition events_for :: "JsVarRef \<Rightarrow> 'r js_state \<Rightarrow> (JsVarRef \<times> string \<times> JsVar) list" where
  "events_for w s = filter (\<lambda>e. fst e = w) (queue s)"

text \<open>The finish callbacks among them.\<close>

definition finish_events :: "JsVarRef \<Rightarrow> 'r js_state \<Rightarrow> (JsVarRef \<times> string \<times> JsVar) list" where
  "finish_events w s = filter (\<lambda>e. fst (snd e) = ''#onfinish'') (events_for w s)"

subsection \<open>Buffer resolver\<close>

text \<open>The loop of \<open>jswrap_waveform_getBuffer\<close>: follow \<open>firstChild\<close> through ArrayBuffers.\<close>

fun plough :: "JsVar \<Rightarrow> JsVar" where
  "plough (JsArrayBuffer r n b) = plough b"
| "plough v = v"

definition jswrap_waveform_getBuffer :: "Waveform \<Rightarrow> int \<Rightarrow> JsVar" where
  "jswrap_waveform_getBuffer waveform bufferNumber =
     plough (if bufferNumber = 0 then w_buffer waveform else w_buffer2 waveform)"

subsection \<open>The idle handler\<close>

text \<open>
  The body of the loop of \<open>jswrap_waveform_idle\<close> for one element of the array: the
  result is the local \<open>running\<close> at the end of the body, which decides whether the element
  stays in the array.
\<close>

definition idle_waveform :: "'r extern \<Rightarrow> JsVarRef \<Rightarrow> 'r js_state \<Rightarrow> bool \<times> 'r js_state" where
  "idle_waveform ext waveform s =
     (let obj = objs s waveform in
      if w_running obj then
        (let buffer = jswrap_waveform_getBuffer obj 0 in
         case jstGetLastBufferTimerTask ext (timer s) buffer of
           None \<Rightarrow>
             (let arrayBuffer = w_buffer obj;
                  s1 = jsiQueueObjectCallbacks waveform ''#onfinish'' arrayBuffer s
              in (False, s1\<lparr>objs := (objs s1)(waveform := obj\<lparr>w_running := False\<rparr>)\<rparr>))
         | Some task \<Rightarrow>
             (if task_nextBuffer task \<noteq> 0 \<and> task_nextBuffer task \<noteq> task_currentBuffer task then
                (let currentBuffer = (if jsvGetRef buffer = task_currentBuffer task then 0 else 1);
                     oldBuffer = (case w_currentBuffer obj of None \<Rightarrow> 0 | Some v \<Rightarrow> v)
                 in if oldBuffer \<noteq> currentBuffer then
                      (let s1 = s\<lparr>objs := (objs s)(waveform := obj\<lparr>w_currentBuffer := Some currentBuffer\<rparr>)\<rparr>;
                           arrayBuffer = (if currentBuffer = 0 then w_buffer obj else w_buffer2 obj)
                       in (True, jsiQueueObjectCallbacks waveform ''#onbuffer'' arrayBuffer s1))
                    else (True, s\<lparr>objs := (objs s)(waveform := obj\<lparr>w_currentBuffer := Some oldBuffer\<rparr>)\<rparr>))
              else (True, s)))
      else (False, s))"

text \<open>
  The iteration over the array: an element whose \<open>running\<close> is false at the end of the
  body is removed (\<open>jsvArrayIteratorRemoveAndGotoNext\<close>), the others are kept. The
  result is the array's remaining elements and the state.
\<close>

fun idle_loop :: "'r extern \<Rightarrow> JsVarRef list \<Rightarrow> 'r js_state \<Rightarrow> JsVarRef list \<times> 'r js_state" where
  "idle_loop ext [] s = ([], s)"
| "idle_loop ext (waveform # rest) s =
     (let (running, s1) = idle_waveform ext waveform s;
          (kept, s2) = idle_loop ext rest s1
      in (if running then waveform # kept else kept, s2))"

definition jswrap_waveform_idle :: "'r extern \<Rightarrow> 'r js_state \<Rightarrow> bool \<times> 'r js_state" where
  "jswrap_waveform_idle ext s =
     (case waveforms s of
        None \<Rightarrow> (False, s)
      | Some ws \<Rightarrow> (let (kept, s1) = idle_loop ext ws s in (False, s1\<lparr>waveforms := Some kept\<rparr>)))"

text \<open>
  Two values of the loop body, named for the statements about it: the local
  \<open>currentBuffer\<close> (0 when the task's current buffer is the Waveform's resolved primary
  buffer, else 1) and what \<open>jsvGetInteger(oldBuffer)\<close> reads (the child
  \<open>currentBuffer\<close>, which is created as the integer 0 when absent); and the callback queued
  when they differ.
\<close>

definition buffer_index :: "Waveform \<Rightarrow> UtilTimerTask \<Rightarrow> int" where
  "buffer_index obj task =
     (if jsvGetRef (jswrap_waveform_getBuffer obj 0) = task_currentBuffer task then 0 else 1)"

definition recorded_index :: "Waveform \<Rightarrow> int" where
  "recorded_index obj = (case w_currentBuffer obj of None \<Rightarrow> 0 | Some v \<Rightarrow> v)"

definition buffer_event :: "JsVarRef \<Rightarrow> Waveform \<Rightarrow> int \<Rightarrow> JsVarRef \<times> string \<times> JsVar" where
  "buffer_event w obj i = (w, ''#onbuffer'', if i = 0 then w_buffer obj else w_buffer2 obj)"

subsection \<open>The kill handler\<close>

fun kill_loop :: "'r extern \<Rightarrow> JsVarRef list \<Rightarrow> 'r js_state \<Rightarrow> 'r js_state" where
  "kill_loop ext [] s = s"
| "kill_loop ext (waveform # rest) s =
     (let obj = objs s waveform;
          s1 = (if w_running obj then
                  (let buffer = jswrap_waveform_getBuffer obj 0;
                       (stopped, tm) = jstStopBufferTimerTask ext (timer s) buffer;
                       s0 = s\<lparr>timer := tm\<rparr>
                   in if \<not> stopped then jsErrorMsg (JsError ''Waveform couldn't be stopped'') s0
                      else s0)
                else s)
      in kill_loop ext rest s1)"

definition jswrap_waveform_kill :: "'r extern \<Rightarrow> 'r js_state \<Rightarrow> 'r js_state" where
  "jswrap_waveform_kill ext s =
     (case waveforms s of
        None \<Rightarrow> s
      | Some ws \<Rightarrow> (kill_loop ext ws s)\<lparr>waveforms := Some []\<rparr>)"

subsection \<open>The constructor\<close>

definition options_error :: console_msg where
  "options_error = JsError ''Expecting options to be undefined or an Object, not %t''"

text \<open>
  What the interpreter's allocator answers during one call of the constructor: the
  references of the variables of the first and of the second typed array (the view, its
  ArrayBuffer and the flat string under it) and the reference of the new object;
  \<open>None\<close> where the allocation fails.
\<close>

record allocs =
  new_arrayBuffer :: "(JsVarRef \<times> JsVarRef \<times> JsVarRef) option"
  new_arrayBuffer2 :: "(JsVarRef \<times> JsVarRef \<times> JsVarRef) option"
  new_waveform :: "JsVarRef option"

text \<open>
  Modelled from the spec: \<open>jswrap_typedarray_constructor\<close> (jswrap\_arraybuffer.c) is
  not among the sources. For \<open>ARRAYBUFFERVIEW_UINT8\<close> and a length it "allocates one
  byte buffer of length \<open>samples\<close>": a view over an ArrayBuffer over a flat string, each of
  that length; on allocation failure it returns no object.
\<close>

definition jswrap_typedarray_constructor ::
  "(JsVarRef \<times> JsVarRef \<times> JsVarRef) option \<Rightarrow> int \<Rightarrow> JsVar" where
  "jswrap_typedarray_constructor a arrayLength =
     (case a of
        None \<Rightarrow> JsUndefined
      | Some (v, b, d) \<Rightarrow>
          JsArrayBuffer v (nat arrayLength)
            (JsArrayBuffer b (nat arrayLength) (JsString d (nat arrayLength))))"

text \<open>The object \<open>jspNewObject\<close> returns has none of the children yet.\<close>

definition jspNewObject :: Waveform where
  "jspNewObject =
     \<lparr>w_buffer = JsUndefined, w_buffer2 = JsUndefined, w_running = False,
      w_freq = None, w_currentBuffer = None\<rparr>"

text \<open>The result is the reference of the new Waveform, 0 for the null pointer.\<close>

definition jswrap_waveform_constructor ::
  "allocs \<Rightarrow> int \<Rightarrow> bool options \<Rightarrow> 'r js_state \<Rightarrow> JsVarRef \<times> 'r js_state" where
  "jswrap_waveform_constructor al samples options s =
     (if samples \<le> 0 then (0, jsErrorMsg (JsError ''samples must be greater than 0'') s)
      else
        (let (doubleBuffer, s1) =
               (case options of
                  Object db \<Rightarrow> (db, s)
                | Undefined \<Rightarrow> (False, s)
                | NotObject \<Rightarrow>
                    (False, jsErrorMsg options_error s));
             arrayBuffer = jswrap_typedarray_constructor (new_arrayBuffer al) samples;
             arrayBuffer2 =
               (if doubleBuffer then jswrap_typedarray_constructor (new_arrayBuffer2 al) samples
                else JsUndefined)
         in case new_waveform al of
              None \<Rightarrow> (0, s1)
            | Some waveform \<Rightarrow>
                if jsvIsUndefined arrayBuffer \<or> (doubleBuffer \<and> jsvIsUndefined arrayBuffer2)
                then (0, s1)
                else
                  (let obj1 = jspNewObject\<lparr>w_buffer := arrayBuffer\<rparr>;
                       obj2 = (if \<not> jsvIsUndefined arrayBuffer2
                              then obj1\<lparr>w_buffer2 := arrayBuffer2\<rparr> else obj1)
                   in (waveform, s1\<lparr>objs := (objs s1)(waveform := obj2)\<rparr>))))"

subsection \<open>Start and stop\<close>

definition jswrap_waveform_start ::
  "'r extern \<Rightarrow> JsVarRef \<Rightarrow> Pin \<Rightarrow> JsVarFloat \<Rightarrow> start_options options \<Rightarrow> UtilTimerEventType
     \<Rightarrow> 'r js_state \<Rightarrow> 'r js_state" where
  "jswrap_waveform_start ext waveform p fr options eventType s =
     (let obj = objs s waveform in
      if w_running obj then jsErrorMsg (JsError ''Waveform is already running'') s
      else if \<not> jshIsPinValid ext p then jsErrorMsg (JsError ''Invalid pin'') s
      else if \<not> isfinite fr \<or> float_less fr (Finite 1) then
        jsErrorMsg (JsError ''Frequency must be above 1Hz'') s
      else
        (let now = jshGetSystemTime ext;
             (startTime, repeat, s1) =
               (case options of
                  Object opts \<Rightarrow>
                    (let t = opt_time opts
                     in (if \<not> isfinite t \<and> float_less (Finite 0) t
                         then jshGetTimeFromMilliseconds ext (double_div ext t (Finite 1000))
                         else now,
                         opt_repeat opts, s))
                | Undefined \<Rightarrow> (now, False, s)
                | NotObject \<Rightarrow>
                    (now, False, jsErrorMsg options_error s));
             buffer = jswrap_waveform_getBuffer obj 0;
             buffer2 = jswrap_waveform_getBuffer obj 1;
             (scheduled, tm) =
               jstStartSignal ext (timer s1) startTime
                 (jshGetTimeFromMilliseconds ext (double_div ext (Finite 1000) fr)) p buffer
                 (if repeat then (if \<not> jsvIsUndefined buffer2 then buffer2 else buffer)
                  else JsUndefined)
                 eventType;
             s2 = s1\<lparr>timer := tm\<rparr>;
             s3 = (if \<not> scheduled then jsErrorMsg (JsWarn ''Unable to schedule a timer'') s2
                   else s2);
             s4 = s3\<lparr>objs := (objs s3)(waveform := obj\<lparr>w_running := True, w_freq := Some fr\<rparr>)\<rparr>
         in case waveforms s4 of
              Some ws \<Rightarrow> s4\<lparr>waveforms := Some (ws @ [waveform])\<rparr>
            | None \<Rightarrow>
                if array_created ext then s4\<lparr>waveforms := Some [waveform]\<rparr> else s4))"

text \<open>
  The call of \<open>jstStartSignal\<close> that \<open>jswrap_waveform_start\<close> makes once its checks have
  passed, with the start time, the period and the repeat buffer it computes.
\<close>

definition start_signal ::
  "'r extern \<Rightarrow> JsVarRef \<Rightarrow> Pin \<Rightarrow> JsVarFloat \<Rightarrow> start_options options \<Rightarrow> UtilTimerEventType
     \<Rightarrow> 'r js_state \<Rightarrow> bool \<times> 'r" where
  "start_signal ext waveform p fr options eventType s =
     jstStartSignal ext (timer s)
       (case options of
          Object opts \<Rightarrow>
            if \<not> isfinite (opt_time opts) \<and> float_less (Finite 0) (opt_time opts)
            then jshGetTimeFromMilliseconds ext (double_div ext (opt_time opts) (Finite 1000))
            else jshGetSystemTime ext
        | Undefined \<Rightarrow> jshGetSystemTime ext
        | NotObject \<Rightarrow> jshGetSystemTime ext)
       (jshGetTimeFromMilliseconds ext (double_div ext (Finite 1000) fr)) p
       (jswrap_waveform_getBuffer (objs s waveform) 0)
       (if (case options of Object opts \<Rightarrow> opt_repeat opts | Undefined \<Rightarrow> False
            | NotObject \<Rightarrow> False)
        then (if \<not> jsvIsUndefined (jswrap_waveform_getBuffer (objs s waveform) 1)
              then jswrap_waveform_getBuffer (objs s waveform) 1
              else jswrap_waveform_getBuffer (objs s waveform) 0)
        else JsUndefined)
       eventType"

definition jswrap_waveform_startOutput ::
  "'r extern \<Rightarrow> JsVarRef \<Rightarrow> Pin \<Rightarrow> JsVarFloat \<Rightarrow> start_options options
     \<Rightarrow> 'r js_state \<Rightarrow> 'r js_state" where
  "jswrap_waveform_startOutput ext waveform p fr options s =
     jswrap_waveform_start ext waveform p fr options UET_WRITE_BYTE s"

definition jswrap_waveform_startInput ::
  "'r extern \<Rightarrow> JsVarRef \<Rightarrow> Pin \<Rightarrow> JsVarFloat \<Rightarrow> start_options options
     \<Rightarrow> 'r js_state \<Rightarrow> 'r js_state" where
  "jswrap_waveform_startInput ext waveform p fr options s =
     (if float_less (jshPinAnalog ext p) (Finite 0) then s
      else jswrap_waveform_start ext waveform p fr options UET_READ_BYTE s)"

definition jswrap_waveform_stop :: "'r extern \<Rightarrow> JsVarRef \<Rightarrow> 'r js_state \<Rightarrow> 'r js_state" where
  "jswrap_waveform_stop ext waveform s =
     (let obj = objs s waveform in
      if \<not> w_running obj then jsErrorMsg (JsError ''Waveform is not running'') s
      else
        (let buffer = jswrap_waveform_getBuffer obj 0;
             (stopped, tm) = jstStopBufferTimerTask ext (timer s) buffer;
             s0 = s\<lparr>timer := tm\<rparr>;
             s1 = (if \<not> stopped then jsErrorMsg (JsError ''Waveform couldn't be stopped'') s0
                   else s0)
         in snd (jswrap_waveform_idle ext s1)))"

text \<open>Poll passes one after the other, the timer being in the given state at each.\<close>

definition idle_passes :: "'r extern \<Rightarrow> 'r list \<Rightarrow> 'r js_state \<Rightarrow> 'r js_state" where
  "idle_passes ext tms s = foldl (\<lambda>st tm. snd (jswrap_waveform_idle ext (st\<lparr>timer := tm\<rparr>))) s tms"

subsection \<open>A timer with a fixed number of task slots\<close>

text \<open>
  Modelled from the spec: jstimer.c is not among the sources. This is a Timer/Task
  Runner as the wrapper's interface describes it, with \<open>cap\<close> task slots: scheduling fails
  when no slot is free, the query returns the last task that refers to the buffer, and
  cancelling retires that task and fails when there is none. It divides without rounding
  and can always create the hidden array. It instantiates the parameters where a concrete
  run is evaluated.
\<close>

definition refers_to :: "JsVar \<Rightarrow> UtilTimerTask \<Rightarrow> bool" where
  "refers_to var task =
     (task_currentBuffer task = jsvGetRef var \<or> task_nextBuffer task = jsvGetRef var)"

definition slot_timer :: "nat \<Rightarrow> UtilTimerTask list extern" where
  "slot_timer cap =
     \<lparr>jshIsPinValid = (\<lambda>p. p < 16),
      jshPinAnalog = (\<lambda>p. if p < 8 then Finite 0 else Finite (- 1)),
      jshGetSystemTime = 100,
      jshGetTimeFromMilliseconds = (\<lambda>ms. case ms of Finite x \<Rightarrow> \<lfloor>x * 1000\<rfloor> | _ \<Rightarrow> 0),
      jstStartSignal = (\<lambda>tasks startTime period p currentData nextData eventType.
         if length tasks < cap then
           (True, tasks @ [\<lparr>task_time = startTime, task_repeatInterval = period, task_pin = p,
                            task_currentBuffer = jsvGetRef currentData,
                            task_nextBuffer = jsvGetRef nextData, task_type = eventType\<rparr>])
         else (False, tasks)),
      jstGetLastBufferTimerTask = (\<lambda>tasks var. List.find (refers_to var) (rev tasks)),
      jstStopBufferTimerTask = (\<lambda>tasks var.
         case List.find (refers_to var) (rev tasks) of
           None \<Rightarrow> (False, tasks)
         | Some task \<Rightarrow> (True, rev (remove1 task (rev tasks)))),
      double_div = float_div,
      array_created = True\<rparr>"

text \<open>The same timer when a cancellation cannot be confirmed: the task stays scheduled.\<close>

definition stuck_timer :: "nat \<Rightarrow> UtilTimerTask list extern" where
  "stuck_timer cap = (slot_timer cap)\<lparr>jstStopBufferTimerTask := (\<lambda>tasks var. (False, tasks))\<rparr>"

definition init_state :: "UtilTimerTask list js_state" where
  "init_state =
     \<lparr>objs = (\<lambda>r. jspNewObject), waveforms = None, timer = [], queue = [], console = []\<rparr>"

definition single_allocs :: allocs where
  "single_allocs =
     \<lparr>new_arrayBuffer = Some (11, 12, 13), new_arrayBuffer2 = None, new_waveform = Some 10\<rparr>"

definition double_allocs :: allocs where
  "double_allocs =
     \<lparr>new_arrayBuffer = Some (11, 12, 13), new_arrayBuffer2 = Some (14, 15, 16),
      new_waveform = Some 10\<rparr>"

text \<open>\<open>new Waveform(8)\<close> and \<open>new Waveform(8, {doubleBuffer:true})\<close> in the initial state.\<close>

definition single_state :: "UtilTimerTask list js_state" where
  "single_state = snd (jswrap_waveform_constructor single_allocs 8 Undefined init_state)"

definition double_state :: "UtilTimerTask list js_state" where
  "double_state = snd (jswrap_waveform_constructor double_allocs 8 (Object True) init_state)"

text \<open>
  \<open>startOutput(3, 1000)\<close> on the single-buffered Waveform, and
  \<open>startOutput(3, 1000, {repeat:true})\<close> on the double-buffered one, with four task slots.
\<close>

definition single_started :: "UtilTimerTask list js_state" where
  "single_started =
     jswrap_waveform_startOutput (slot_timer 4) 10 3 (Finite 1000) Undefined single_state"

definition double_started :: "UtilTimerTask list js_state" where
  "double_started =
     jswrap_waveform_startOutput (slot_timer 4) 10 3 (Finite 1000)
       (Object \<lparr>opt_time = NaN, opt_repeat = True\<rparr>) double_state"

text \<open>
  The timer's side of a run: the one-shot task has retired, and the repeating task has
  exchanged its current and next buffer.
\<close>

definition single_finished :: "UtilTimerTask list js_state" where
  "single_finished = single_started\<lparr>timer := []\<rparr>"

definition swapped :: "UtilTimerTask \<Rightarrow> UtilTimerTask" where
  "swapped task =
     task\<lparr>task_currentBuffer := task_nextBuffer task, task_nextBuffer := task_currentBuffer task\<rparr>"

definition double_swapped :: "UtilTimerTask list js_state" where
  "double_swapped = double_started\<lparr>timer := map swapped (timer double_started)\<rparr>"

section \<open>Software interrupts (nrf\_drv\_swi.c)\<close>

text \<open>
  The build configuration: \<open>SWI_COUNT\<close>, which of the macros \<open>SWI_DISABLE0\<close> to
  \<open>SWI_DISABLE5\<close> the configuration header defines, and the interrupt number of SWI0.
\<close>

record swi_config =
  SWI_COUNT :: nat
  SWI_DISABLE_defined :: "nat \<Rightarrow> bool"
  SWI0_IRQn :: nat

definition SWI_DISABLE :: "swi_config \<Rightarrow> nat \<Rightarrow> nat" where
  "SWI_DISABLE c n =
     (if SWI_DISABLE_defined c n then 1 else if n < SWI_COUNT c then 0 else 1)"

definition SWI_START_NUMBER :: "swi_config \<Rightarrow> nat" where
  "SWI_START_NUMBER c =
     SWI_DISABLE c 0
     + SWI_DISABLE c 0 * SWI_DISABLE c 1
     + SWI_DISABLE c 0 * SWI_DISABLE c 1 * SWI_DISABLE c 2
     + SWI_DISABLE c 0 * SWI_DISABLE c 1 * SWI_DISABLE c 2 * SWI_DISABLE c 3
     + SWI_DISABLE c 0 * SWI_DISABLE c 1 * SWI_DISABLE c 2 * SWI_DISABLE c 3 * SWI_DISABLE c 4
     + SWI_DISABLE c 0 * SWI_DISABLE c 1 * SWI_DISABLE c 2 * SWI_DISABLE c 3 * SWI_DISABLE c 4
         * SWI_DISABLE c 5"

definition SWI_ARRAY_SIZE :: "swi_config \<Rightarrow> nat" where
  "SWI_ARRAY_SIZE c =
     (if SWI_COUNT c \<le> SWI_START_NUMBER c then 1 else SWI_COUNT c - SWI_START_NUMBER c)"

definition AVAILABLE_SWI :: "swi_config \<Rightarrow> 32 word" where
  "AVAILABLE_SWI c =
     0x3F AND NOT (push_bit 0 (of_nat (SWI_DISABLE c 0)) OR push_bit 1 (of_nat (SWI_DISABLE c 1))
                   OR push_bit 2 (of_nat (SWI_DISABLE c 2)) OR push_bit 3 (of_nat (SWI_DISABLE c 3))
                   OR push_bit 4 (of_nat (SWI_DISABLE c 4)) OR push_bit 5 (of_nat (SWI_DISABLE c 5)))"

datatype nrf_drv_state_t =
  NRF_DRV_STATE_UNINITIALIZED | NRF_DRV_STATE_INITIALIZED | NRF_DRV_STATE_POWERED_ON

datatype ret_code_t = NRF_SUCCESS | NRF_ERROR_NO_MEM | MODULE_ALREADY_INITIALIZED

text \<open>
  The driver's static variables, and the interrupts enabled through
  \<open>nrf_drv_common_irq_enable\<close> (number and priority, in the order of the calls). A
  handler is a function pointer: 0 is \<open>NULL\<close>.
\<close>

record swi_state =
  m_drv_state :: nrf_drv_state_t
  m_swi_handlers :: "nat list"
  m_swi_flags :: "16 word list"
  irq_enabled :: "(nat \<times> nat) list"

definition nrf_drv_swi_irq_of :: "swi_config \<Rightarrow> nat \<Rightarrow> nat" where
  "nrf_drv_swi_irq_of c swi = SWI0_IRQn c + swi"

definition swi_is_allocated :: "swi_config \<Rightarrow> swi_state \<Rightarrow> nat \<Rightarrow> bool" where
  "swi_is_allocated c st swi =
     (if 0 < SWI_START_NUMBER c \<and> swi < SWI_START_NUMBER c then False
      else m_swi_handlers st ! (swi - SWI_START_NUMBER c) \<noteq> 0)"

definition nrf_drv_swi_init :: "swi_state \<Rightarrow> ret_code_t \<times> swi_state" where
  "nrf_drv_swi_init st =
     (if m_drv_state st = NRF_DRV_STATE_UNINITIALIZED
      then (NRF_SUCCESS, st\<lparr>m_drv_state := NRF_DRV_STATE_INITIALIZED\<rparr>)
      else (MODULE_ALREADY_INITIALIZED, st))"

text \<open>
  The loop of \<open>nrf_drv_swi_alloc\<close> from index \<open>i\<close> on. The result is the error code, the
  driver's state and the value of \<open>*p_swi\<close>, an 8-bit number.
\<close>

function alloc_loop ::
  "swi_config \<Rightarrow> nat \<Rightarrow> nat \<Rightarrow> nat \<Rightarrow> swi_state \<Rightarrow> nat \<Rightarrow> ret_code_t \<times> swi_state \<times> nat" where
  "alloc_loop c event_handler priority i st p_swi =
     (if i < SWI_COUNT c then
        (if \<not> swi_is_allocated c st i \<and> AVAILABLE_SWI c AND push_bit i 1 \<noteq> 0 then
           (NRF_SUCCESS,
            st\<lparr>m_swi_handlers := (m_swi_handlers st)[i - SWI_START_NUMBER c := event_handler],
               irq_enabled := irq_enabled st @ [(nrf_drv_swi_irq_of c (i mod 256), priority)]\<rparr>,
            i mod 256)
         else alloc_loop c event_handler priority (i + 1) st p_swi)
      else (NRF_ERROR_NO_MEM, st, p_swi))"
  by pat_completeness auto
termination
  by (relation "measure (\<lambda>(c, h, pr, i, st, p). SWI_COUNT c - i)") auto

definition nrf_drv_swi_alloc ::
  "swi_config \<Rightarrow> swi_state \<Rightarrow> nat \<Rightarrow> nat \<Rightarrow> nat \<Rightarrow> ret_code_t \<times> swi_state \<times> nat" where
  "nrf_drv_swi_alloc c st p_swi event_handler priority =
     alloc_loop c event_handler priority (SWI_START_NUMBER c) st p_swi"

text \<open>An index the loop may hand out: in range, not allocated and enabled.\<close>

definition swi_free :: "swi_config \<Rightarrow> swi_state \<Rightarrow> nat \<Rightarrow> bool" where
  "swi_free c st i =
     (SWI_START_NUMBER c \<le> i \<and> i < SWI_COUNT c \<and> \<not> swi_is_allocated c st i
      \<and> AVAILABLE_SWI c AND push_bit i 1 \<noteq> 0)"

text \<open>A configuration with four SWIs of which SWI0 is disabled, and a driver state for it.\<close>

definition config4 :: swi_config where
  "config4 = \<lparr>SWI_COUNT = 4, SWI_DISABLE_defined = (\<lambda>n. n = 0), SWI0_IRQn = 20\<rparr>"

definition swi_state0 :: swi_state where
  "swi_state0 =
     \<lparr>m_drv_state = NRF_DRV_STATE_UNINITIALIZED, m_swi_handlers = [0, 0, 0],
      m_swi_flags = [0, 0, 0], irq_enabled = []\<rparr>"

definition swi_state_full :: swi_state where
  "swi_state_full =
     \<lparr>m_drv_state = NRF_DRV_STATE_INITIALIZED, m_swi_handlers = [7, 8, 9],
      m_swi_flags = [0, 0, 0], irq_enabled = [(21, 3), (22, 3), (23, 3)]\<rparr>"

section \<open>Properties of the Waveform wrapper\<close>

subsection \<open>One element of the poll\<close>

lemma events_for_queue [simp]:
  "events_for v (s\<lparr>queue := q\<rparr>) = filter (\<lambda>e. fst e = v) q"
  "events_for v (s\<lparr>objs := f\<rparr>) = events_for v s"
  "events_for v (s\<lparr>waveforms := ws\<rparr>) = events_for v s"
  "events_for v (s\<lparr>timer := tm\<rparr>) = events_for v s"
  "events_for v (s\<lparr>console := c\<rparr>) = events_for v s"
  by (simp_all add: events_for_def)

lemma active_set_simps [simp]:
  "active_set (s\<lparr>waveforms := Some ws\<rparr>) = ws"
  "active_set (s\<lparr>objs := f\<rparr>) = active_set s"
  "active_set (s\<lparr>queue := q\<rparr>) = active_set s"
  "active_set (s\<lparr>timer := tm\<rparr>) = active_set s"
  "active_set (s\<lparr>console := c\<rparr>) = active_set s"
  by (simp_all add: active_set_def)

lemma getBuffer_currentBuffer [simp]:
  "jswrap_waveform_getBuffer (obj\<lparr>w_currentBuffer := c\<rparr>) n = jswrap_waveform_getBuffer obj n"
  by (simp add: jswrap_waveform_getBuffer_def)

lemma idle_waveform_frame:
  "timer (snd (idle_waveform ext w s)) = timer s"
  "console (snd (idle_waveform ext w s)) = console s"
  "waveforms (snd (idle_waveform ext w s)) = waveforms s"
  by (simp_all add: idle_waveform_def jsiQueueObjectCallbacks_def Let_def split: option.splits)

lemma idle_waveform_other:
  "v \<noteq> w \<Longrightarrow> objs (snd (idle_waveform ext w s)) v = objs s v"
  "v \<noteq> w \<Longrightarrow> events_for v (snd (idle_waveform ext w s)) = events_for v s"
  by (simp_all add: idle_waveform_def jsiQueueObjectCallbacks_def Let_def events_for_def
      split: option.splits)

lemma idle_waveform_not_running:
  "\<not> w_running (objs s w) \<Longrightarrow> idle_waveform ext w s = (False, s)"
  by (simp add: idle_waveform_def)

lemma idle_waveform_finish:
  "w_running (objs s w) \<Longrightarrow>
   jstGetLastBufferTimerTask ext (timer s) (jswrap_waveform_getBuffer (objs s w) 0) = None \<Longrightarrow>
   idle_waveform ext w s =
     (False, s\<lparr>queue := queue s @ [(w, ''#onfinish'', w_buffer (objs s w))],
               objs := (objs s)(w := (objs s w)\<lparr>w_running := False\<rparr>)\<rparr>)"
  by (simp add: idle_waveform_def jsiQueueObjectCallbacks_def Let_def)

lemma idle_waveform_buffer:
  assumes "w_running (objs s w)"
    and "jstGetLastBufferTimerTask ext (timer s) (jswrap_waveform_getBuffer (objs s w) 0) = Some task"
    and "task_nextBuffer task \<noteq> 0" and "task_nextBuffer task \<noteq> task_currentBuffer task"
  shows "idle_waveform ext w s =
     (True, s\<lparr>objs := (objs s)(w := (objs s w)\<lparr>w_currentBuffer := Some (buffer_index (objs s w) task)\<rparr>),
              queue := queue s @
                (if recorded_index (objs s w) \<noteq> buffer_index (objs s w) task
                 then [buffer_event w (objs s w) (buffer_index (objs s w) task)] else [])\<rparr>)"
  using assms
  by (simp add: idle_waveform_def jsiQueueObjectCallbacks_def Let_def buffer_index_def
      recorded_index_def buffer_event_def)

lemma idle_waveform_single:
  assumes "w_running (objs s w)"
    and "jstGetLastBufferTimerTask ext (timer s) (jswrap_waveform_getBuffer (objs s w) 0) = Some task"
    and "\<not> (task_nextBuffer task \<noteq> 0 \<and> task_nextBuffer task \<noteq> task_currentBuffer task)"
  shows "idle_waveform ext w s = (True, s)"
  using assms by (auto simp: idle_waveform_def)

subsection \<open>The loop over the active Waveforms\<close>

text \<open>
  A pass leaves the timer, the console and every Waveform that is not in the array as they
  are, and keeps only elements of the array.
\<close>

lemma idle_loop_frame:
  "timer (snd (idle_loop ext ws s)) = timer s
   \<and> console (snd (idle_loop ext ws s)) = console s
   \<and> waveforms (snd (idle_loop ext ws s)) = waveforms s"
proof (induction ws arbitrary: s)
  case Nil
  then show ?case by simp
next
  case (Cons a ws)
  obtain r s1 where st: "idle_waveform ext a s = (r, s1)" by (cases "idle_waveform ext a s")
  obtain k s2 where lp: "idle_loop ext ws s1 = (k, s2)" by (cases "idle_loop ext ws s1")
  from idle_waveform_frame[of ext a s] st
  have "timer s1 = timer s" "console s1 = console s" "waveforms s1 = waveforms s" by simp_all
  with Cons.IH[of s1] st lp show ?case by simp
qed

lemma idle_loop_subset: "set (fst (idle_loop ext ws s)) \<subseteq> set ws"
proof (induction ws arbitrary: s)
  case Nil
  then show ?case by simp
next
  case (Cons a ws)
  obtain r s1 where st: "idle_waveform ext a s = (r, s1)" by (cases "idle_waveform ext a s")
  obtain k s2 where lp: "idle_loop ext ws s1 = (k, s2)" by (cases "idle_loop ext ws s1")
  from Cons.IH[of s1] lp have "set k \<subseteq> set ws" by simp
  with st lp show ?case by auto
qed

lemma idle_loop_other:
  "v \<notin> set ws \<Longrightarrow>
   objs (snd (idle_loop ext ws s)) v = objs s v
   \<and> events_for v (snd (idle_loop ext ws s)) = events_for v s"
proof (induction ws arbitrary: s)
  case Nil
  then show ?case by simp
next
  case (Cons a ws)
  then have ne: "v \<noteq> a" and nin: "v \<notin> set ws" by auto
  obtain r s1 where st: "idle_waveform ext a s = (r, s1)" by (cases "idle_waveform ext a s")
  obtain k s2 where lp: "idle_loop ext ws s1 = (k, s2)" by (cases "idle_loop ext ws s1")
  from idle_waveform_other[OF ne, of ext s] st
  have a1: "objs s1 v = objs s v" "events_for v s1 = events_for v s" by simp_all
  from Cons.IH[OF nin, of s1] lp
  have a2: "objs s2 v = objs s1 v" "events_for v s2 = events_for v s1" by simp_all
  from st lp a1 a2 show ?case by simp
qed

text \<open>
  A Waveform that is not running is removed wherever it stands in the array, with no event.
\<close>

lemma idle_loop_not_running:
  "\<not> w_running (objs s w) \<Longrightarrow>
   objs (snd (idle_loop ext ws s)) w = objs s w
   \<and> events_for w (snd (idle_loop ext ws s)) = events_for w s
   \<and> w \<notin> set (fst (idle_loop ext ws s))"
proof (induction ws arbitrary: s)
  case Nil
  then show ?case by simp
next
  case (Cons a ws)
  obtain r s1 where st: "idle_waveform ext a s = (r, s1)" by (cases "idle_waveform ext a s")
  obtain k s2 where lp: "idle_loop ext ws s1 = (k, s2)" by (cases "idle_loop ext ws s1")
  have a1: "objs s1 w = objs s w \<and> events_for w s1 = events_for w s \<and> (a = w \<longrightarrow> \<not> r)"
  proof (cases "a = w")
    case True
    with Cons.prems st show ?thesis by (simp add: idle_waveform_not_running)
  next
    case False
    then have "w \<noteq> a" by simp
    from idle_waveform_other[OF this, of ext s] st False show ?thesis by simp
  qed
  with Cons.prems have "\<not> w_running (objs s1 w)" by simp
  from Cons.IH[OF this] lp
  have a2: "objs s2 w = objs s1 w" "events_for w s2 = events_for w s1" "w \<notin> set k" by simp_all
  from st lp a1 a2 show ?case by auto
qed

text \<open>
  A running Waveform whose task is gone: the first time the loop meets it, it queues the
  finish callback and clears \<open>running\<close>; later occurrences are removed silently.
\<close>

lemma idle_loop_finish:
  "w \<in> set ws \<Longrightarrow> w_running (objs s w) \<Longrightarrow>
   jstGetLastBufferTimerTask ext (timer s) (jswrap_waveform_getBuffer (objs s w) 0) = None \<Longrightarrow>
   objs (snd (idle_loop ext ws s)) w = (objs s w)\<lparr>w_running := False\<rparr>
   \<and> events_for w (snd (idle_loop ext ws s)) =
       events_for w s @ [(w, ''#onfinish'', w_buffer (objs s w))]
   \<and> w \<notin> set (fst (idle_loop ext ws s))"
proof (induction ws arbitrary: s)
  case Nil
  then show ?case by simp
next
  case (Cons a ws)
  obtain r s1 where st: "idle_waveform ext a s = (r, s1)" by (cases "idle_waveform ext a s")
  obtain k s2 where lp: "idle_loop ext ws s1 = (k, s2)" by (cases "idle_loop ext ws s1")
  show ?case
  proof (cases "a = w")
    case True
    from idle_waveform_finish[OF Cons.prems(2,3)] st True
    have s1: "r = False"
      "s1 = s\<lparr>queue := queue s @ [(w, ''#onfinish'', w_buffer (objs s w))],
               objs := (objs s)(w := (objs s w)\<lparr>w_running := False\<rparr>)\<rparr>" by simp_all
    then have nr: "\<not> w_running (objs s1 w)" by simp
    from idle_loop_not_running[OF nr, of ext ws] lp
    have a2: "objs s2 w = objs s1 w" "events_for w s2 = events_for w s1" "w \<notin> set k" by simp_all
    from s1 have "objs s1 w = (objs s w)\<lparr>w_running := False\<rparr>"
      "events_for w s1 = events_for w s @ [(w, ''#onfinish'', w_buffer (objs s w))]"
      by (simp_all add: events_for_def)
    with st lp a2 s1(1) show ?thesis by simp
  next
    case False
    then have ne: "w \<noteq> a" by simp
    with Cons.prems have mem: "w \<in> set ws" by simp
    from idle_waveform_other[OF ne, of ext s] st
    have a1: "objs s1 w = objs s w" "events_for w s1 = events_for w s" by simp_all
    from idle_waveform_frame(1)[of ext a s] st have tm: "timer s1 = timer s" by simp
    from Cons.IH[OF mem, of s1] Cons.prems a1 tm lp
    have "objs s2 w = (objs s w)\<lparr>w_running := False\<rparr>
      \<and> events_for w s2 = events_for w s @ [(w, ''#onfinish'', w_buffer (objs s w))]
      \<and> w \<notin> set k" by simp
    with st lp ne show ?thesis by auto
  qed
qed

text \<open>
  A running Waveform with a double-buffered task: the first time the loop meets it, it
  records the index; later occurrences find the index recorded.
\<close>

lemma idle_loop_buffer:
  "w \<in> set ws \<Longrightarrow> w_running (objs s w) \<Longrightarrow>
   jstGetLastBufferTimerTask ext (timer s) (jswrap_waveform_getBuffer (objs s w) 0) = Some task \<Longrightarrow>
   task_nextBuffer task \<noteq> 0 \<Longrightarrow> task_nextBuffer task \<noteq> task_currentBuffer task \<Longrightarrow>
   objs (snd (idle_loop ext ws s)) w =
     (objs s w)\<lparr>w_currentBuffer := Some (buffer_index (objs s w) task)\<rparr>
   \<and> events_for w (snd (idle_loop ext ws s)) =
       events_for w s @
         (if recorded_index (objs s w) \<noteq> buffer_index (objs s w) task
          then [buffer_event w (objs s w) (buffer_index (objs s w) task)] else [])
   \<and> w \<in> set (fst (idle_loop ext ws s))"
proof (induction ws arbitrary: s)
  case Nil
  then show ?case by simp
next
  case (Cons a ws)
  obtain r s1 where st: "idle_waveform ext a s = (r, s1)" by (cases "idle_waveform ext a s")
  obtain k s2 where lp: "idle_loop ext ws s1 = (k, s2)" by (cases "idle_loop ext ws s1")
  let ?i = "buffer_index (objs s w) task"
  let ?ev = "if recorded_index (objs s w) \<noteq> ?i then [buffer_event w (objs s w) ?i] else []"
  show ?case
  proof (cases "a = w")
    case True
    from idle_waveform_buffer[OF Cons.prems(2-5)] st True
    have r: "r = True"
      and s1: "s1 = s\<lparr>objs := (objs s)(w := (objs s w)\<lparr>w_currentBuffer := Some ?i\<rparr>),
                       queue := queue s @ ?ev\<rparr>" by simp_all
    from s1 have o1: "objs s1 w = (objs s w)\<lparr>w_currentBuffer := Some ?i\<rparr>"
      and e1: "events_for w s1 = events_for w s @ ?ev"
      and t1: "timer s1 = timer s"
      by (simp_all add: events_for_def buffer_event_def)
    have "objs s2 w = objs s1 w \<and> events_for w s2 = events_for w s1"
    proof (cases "w \<in> set ws")
      case False
      from idle_loop_other[OF False, of ext s1] lp show ?thesis by simp
    next
      case mem: True
      have run1: "w_running (objs s1 w)" using o1 Cons.prems(2) by simp
      have q1: "jstGetLastBufferTimerTask ext (timer s1)
                  (jswrap_waveform_getBuffer (objs s1 w) 0) = Some task"
        using o1 t1 Cons.prems(3) by simp
      have i1: "buffer_index (objs s1 w) task = ?i" using o1 by (simp add: buffer_index_def)
      have rec1: "recorded_index (objs s1 w) = ?i" using o1 by (simp add: recorded_index_def)
      from Cons.IH[OF mem run1 q1 Cons.prems(4,5)] lp i1 rec1 o1
      show ?thesis by simp
    qed
    with st lp r o1 e1 True show ?thesis by simp
  next
    case False
    then have ne: "w \<noteq> a" by simp
    with Cons.prems have mem: "w \<in> set ws" by simp
    from idle_waveform_other[OF ne, of ext s] st
    have a1: "objs s1 w = objs s w" "events_for w s1 = events_for w s" by simp_all
    from idle_waveform_frame(1)[of ext a s] st have tm: "timer s1 = timer s" by simp
    from Cons.IH[OF mem, of s1] Cons.prems a1 tm lp
    have "objs s2 w = (objs s w)\<lparr>w_currentBuffer := Some ?i\<rparr>
      \<and> events_for w s2 = events_for w s @ ?ev \<and> w \<in> set k" by simp
    with st lp ne show ?thesis by auto
  qed
qed

text \<open>
  A running Waveform whose task is there and is not double-buffered is left as it is.
\<close>

lemma idle_loop_single:
  "w_running (objs s w) \<Longrightarrow>
   jstGetLastBufferTimerTask ext (timer s) (jswrap_waveform_getBuffer (objs s w) 0) = Some task \<Longrightarrow>
   \<not> (task_nextBuffer task \<noteq> 0 \<and> task_nextBuffer task \<noteq> task_currentBuffer task) \<Longrightarrow>
   objs (snd (idle_loop ext ws s)) w = objs s w
   \<and> events_for w (snd (idle_loop ext ws s)) = events_for w s
   \<and> (w \<in> set ws \<longrightarrow> w \<in> set (fst (idle_loop ext ws s)))"
proof (induction ws arbitrary: s)
  case Nil
  then show ?case by simp
next
  case (Cons a ws)
  obtain r s1 where st: "idle_waveform ext a s = (r, s1)" by (cases "idle_waveform ext a s")
  obtain k s2 where lp: "idle_loop ext ws s1 = (k, s2)" by (cases "idle_loop ext ws s1")
  have a1: "objs s1 w = objs s w \<and> events_for w s1 = events_for w s \<and> timer s1 = timer s
            \<and> (a = w \<longrightarrow> r)"
  proof (cases "a = w")
    case True
    from idle_waveform_single[OF Cons.prems] st True show ?thesis by simp
  next
    case False
    then have "w \<noteq> a" by simp
    from idle_waveform_other[OF this, of ext s] idle_waveform_frame(1)[of ext a s] st False
    show ?thesis by simp
  qed
  with Cons.prems have p1: "w_running (objs s1 w)"
    "jstGetLastBufferTimerTask ext (timer s1) (jswrap_waveform_getBuffer (objs s1 w) 0) = Some task"
    by simp_all
  from Cons.IH[OF p1 Cons.prems(3)] lp
  have a2: "objs s2 w = objs s1 w" "events_for w s2 = events_for w s1"
    "w \<in> set ws \<longrightarrow> w \<in> set k" by simp_all
  from st lp a1 a2 show ?case by auto
qed

subsection \<open>A whole pass\<close>

lemma idle_unfold:
  "waveforms s = Some ws \<Longrightarrow>
   snd (jswrap_waveform_idle ext s) =
     (snd (idle_loop ext ws s))\<lparr>waveforms := Some (fst (idle_loop ext ws s))\<rparr>"
  by (simp add: jswrap_waveform_idle_def split: prod.splits)

lemma active_setD: "w \<in> set (active_set s) \<Longrightarrow> \<exists>ws. waveforms s = Some ws \<and> w \<in> set ws"
  by (cases "waveforms s") (simp_all add: active_set_def)

lemma idle_frame:
  "timer (snd (jswrap_waveform_idle ext s)) = timer s"
  "console (snd (jswrap_waveform_idle ext s)) = console s"
proof -
  show "timer (snd (jswrap_waveform_idle ext s)) = timer s"
  proof (cases "waveforms s")
    case None
    then show ?thesis by (simp add: jswrap_waveform_idle_def)
  next
    case (Some ws)
    from idle_unfold[OF Some, of ext] idle_loop_frame[of ext ws s] show ?thesis by simp
  qed
  show "console (snd (jswrap_waveform_idle ext s)) = console s"
  proof (cases "waveforms s")
    case None
    then show ?thesis by (simp add: jswrap_waveform_idle_def)
  next
    case (Some ws)
    from idle_unfold[OF Some, of ext] idle_loop_frame[of ext ws s] show ?thesis by simp
  qed
qed

lemma idle_absent:
  assumes "w \<notin> set (active_set s)"
  shows "objs (snd (jswrap_waveform_idle ext s)) w = objs s w
   \<and> events_for w (snd (jswrap_waveform_idle ext s)) = events_for w s
   \<and> w \<notin> set (active_set (snd (jswrap_waveform_idle ext s)))"
proof (cases "waveforms s")
  case None
  with assms show ?thesis by (simp add: jswrap_waveform_idle_def)
next
  case (Some ws)
  with assms have nin: "w \<notin> set ws" by (simp add: active_set_def)
  from idle_loop_subset[of ext ws s] nin have "w \<notin> set (fst (idle_loop ext ws s))" by blast
  with idle_loop_other[OF nin, of ext s] idle_unfold[OF Some, of ext] show ?thesis by simp
qed

lemma idle_passes_absent:
  "w \<notin> set (active_set s) \<Longrightarrow>
   objs (idle_passes ext tms s) w = objs s w
   \<and> events_for w (idle_passes ext tms s) = events_for w s
   \<and> w \<notin> set (active_set (idle_passes ext tms s))"
proof (induction tms arbitrary: s)
  case Nil
  then show ?case by (simp add: idle_passes_def)
next
  case (Cons tm tms)
  let ?s1 = "snd (jswrap_waveform_idle ext (s\<lparr>timer := tm\<rparr>))"
  from Cons.prems have "w \<notin> set (active_set (s\<lparr>timer := tm\<rparr>))" by simp
  from idle_absent[OF this, of ext]
  have a1: "objs ?s1 w = objs s w" "events_for w ?s1 = events_for w s"
    "w \<notin> set (active_set ?s1)" by simp_all
  have "idle_passes ext (tm # tms) s = idle_passes ext tms ?s1" by (simp add: idle_passes_def)
  with Cons.IH[OF a1(3)] a1 show ?case by simp
qed

lemma idle_finish:
  assumes "w \<in> set (active_set s)" and "w_running (objs s w)"
    and "jstGetLastBufferTimerTask ext (timer s) (jswrap_waveform_getBuffer (objs s w) 0) = None"
  shows "objs (snd (jswrap_waveform_idle ext s)) w = (objs s w)\<lparr>w_running := False\<rparr>
   \<and> events_for w (snd (jswrap_waveform_idle ext s)) =
       events_for w s @ [(w, ''#onfinish'', w_buffer (objs s w))]
   \<and> w \<notin> set (active_set (snd (jswrap_waveform_idle ext s)))"
proof -
  from active_setD[OF assms(1)] obtain ws where ws: "waveforms s = Some ws" "w \<in> set ws"
    by blast
  from idle_loop_finish[OF ws(2) assms(2,3)] idle_unfold[OF ws(1), of ext]
  show ?thesis by simp
qed

lemma idle_buffer:
  assumes "w \<in> set (active_set s)" and "w_running (objs s w)"
    and "jstGetLastBufferTimerTask ext (timer s) (jswrap_waveform_getBuffer (objs s w) 0) = Some task"
    and "task_nextBuffer task \<noteq> 0" and "task_nextBuffer task \<noteq> task_currentBuffer task"
  shows "objs (snd (jswrap_waveform_idle ext s)) w =
     (objs s w)\<lparr>w_currentBuffer := Some (buffer_index (objs s w) task)\<rparr>
   \<and> events_for w (snd (jswrap_waveform_idle ext s)) =
       events_for w s @
         (if recorded_index (objs s w) \<noteq> buffer_index (objs s w) task
          then [buffer_event w (objs s w) (buffer_index (objs s w) task)] else [])
   \<and> w \<in> set (active_set (snd (jswrap_waveform_idle ext s)))"
proof -
  from active_setD[OF assms(1)] obtain ws where ws: "waveforms s = Some ws" "w \<in> set ws"
    by blast
  from idle_loop_buffer[OF ws(2) assms(2-5)] idle_unfold[OF ws(1), of ext]
  show ?thesis by simp
qed

lemma idle_present:
  assumes "w \<in> set (active_set s)" and "w_running (objs s w)"
    and "jstGetLastBufferTimerTask ext (timer s) (jswrap_waveform_getBuffer (objs s w) 0) = Some task"
  shows "w_running (objs (snd (jswrap_waveform_idle ext s)) w)
   \<and> finish_events w (snd (jswrap_waveform_idle ext s)) = finish_events w s
   \<and> w \<in> set (active_set (snd (jswrap_waveform_idle ext s)))"
proof (cases "task_nextBuffer task \<noteq> 0 \<and> task_nextBuffer task \<noteq> task_currentBuffer task")
  case True
  then have d: "task_nextBuffer task \<noteq> 0" "task_nextBuffer task \<noteq> task_currentBuffer task"
    by simp_all
  from idle_buffer[OF assms d] assms(2) show ?thesis
    by (simp add: finish_events_def buffer_event_def)
next
  case False
  from active_setD[OF assms(1)] obtain ws where ws: "waveforms s = Some ws" "w \<in> set ws"
    by blast
  from idle_loop_single[OF assms(2,3) False, of ws] idle_unfold[OF ws(1), of ext] ws(2) assms(2)
  show ?thesis by (simp add: finish_events_def)
qed

subsection \<open>The kill handler\<close>

lemma kill_loop_frame:
  "objs (kill_loop ext ws s) = objs s \<and> queue (kill_loop ext ws s) = queue s
   \<and> waveforms (kill_loop ext ws s) = waveforms s"
  by (induction ws arbitrary: s) (simp_all add: Let_def jsErrorMsg_def split: prod.splits)

subsection \<open>Concrete runs\<close>

lemmas run_defs =
  start_signal_def jswrap_waveform_constructor_def jswrap_typedarray_constructor_def jspNewObject_def
  jswrap_waveform_start_def jswrap_waveform_startOutput_def jswrap_waveform_stop_def
  jswrap_waveform_idle_def idle_waveform_def jswrap_waveform_kill_def
  jswrap_waveform_getBuffer_def jsErrorMsg_def jsiQueueObjectCallbacks_def
  slot_timer_def stuck_timer_def refers_to_def active_set_def events_for_def
  init_state_def single_allocs_def double_allocs_def single_state_def double_state_def
  Let_def

lemma single_state_eval:
  "single_state = init_state\<lparr>objs := (objs init_state)(10 :=
      \<lparr>w_buffer = JsArrayBuffer 11 8 (JsArrayBuffer 12 8 (JsString 13 8)), w_buffer2 = JsUndefined,
       w_running = False, w_freq = None, w_currentBuffer = None\<rparr>)\<rparr>"
  by (simp add: run_defs)

lemma double_state_eval:
  "double_state = init_state\<lparr>objs := (objs init_state)(10 :=
      \<lparr>w_buffer = JsArrayBuffer 11 8 (JsArrayBuffer 12 8 (JsString 13 8)),
       w_buffer2 = JsArrayBuffer 14 8 (JsArrayBuffer 15 8 (JsString 16 8)),
       w_running = False, w_freq = None, w_currentBuffer = None\<rparr>)\<rparr>"
  by (simp add: run_defs)

lemma single_started_eval:
  "objs single_started 10 =
     \<lparr>w_buffer = JsArrayBuffer 11 8 (JsArrayBuffer 12 8 (JsString 13 8)), w_buffer2 = JsUndefined,
      w_running = True, w_freq = Some (Finite 1000), w_currentBuffer = None\<rparr>"
  "waveforms single_started = Some [10]"
  "timer single_started =
     [\<lparr>task_time = 100, task_repeatInterval = 1000, task_pin = 3, task_currentBuffer = 13,
       task_nextBuffer = 0, task_type = UET_WRITE_BYTE\<rparr>]"
  "queue single_started = []"
  "console single_started = []"
  by (simp_all add: single_started_def run_defs)

lemma double_started_eval:
  "objs double_started 10 =
     \<lparr>w_buffer = JsArrayBuffer 11 8 (JsArrayBuffer 12 8 (JsString 13 8)),
      w_buffer2 = JsArrayBuffer 14 8 (JsArrayBuffer 15 8 (JsString 16 8)),
      w_running = True, w_freq = Some (Finite 1000), w_currentBuffer = None\<rparr>"
  "waveforms double_started = Some [10]"
  "timer double_started =
     [\<lparr>task_time = 100, task_repeatInterval = 1000, task_pin = 3, task_currentBuffer = 13,
       task_nextBuffer = 16, task_type = UET_WRITE_BYTE\<rparr>]"
  "queue double_started = []"
  "console double_started = []"
  by (simp_all add: double_started_def run_defs)

lemma getBuffer_single_started:
  "jswrap_waveform_getBuffer (objs single_started 10) 0 = JsString 13 8"
  by (simp add: single_started_eval jswrap_waveform_getBuffer_def)

lemma single_finished_eval:
  "objs single_finished 10 = objs single_started 10"
  "waveforms single_finished = Some [10]"
  "timer single_finished = []"
  "queue single_finished = []"
  by (simp_all add: single_finished_def single_started_eval)

lemma double_swapped_eval:
  "objs double_swapped 10 = objs double_started 10"
  "waveforms double_swapped = Some [10]"
  "timer double_swapped =
     [\<lparr>task_time = 100, task_repeatInterval = 1000, task_pin = 3, task_currentBuffer = 16,
       task_nextBuffer = 13, task_type = UET_WRITE_BYTE\<rparr>]"
  "queue double_swapped = []"
  by (simp_all add: double_swapped_def double_started_eval swapped_def)

subsection \<open>Start\<close>

text \<open>
  \<open>startInput\<close> first sets the pin up for analog input and gives up silently when that
  fails; otherwise both methods are \<open>jswrap_waveform_start\<close>.
\<close>

lemma startInput_start:
  "jswrap_waveform_startInput ext w p fr options s =
     (if float_less (jshPinAnalog ext p) (Finite 0) then s
      else jswrap_waveform_start ext w p fr options UET_READ_BYTE s)"
  "jswrap_waveform_startOutput ext w p fr options s =
     jswrap_waveform_start ext w p fr options UET_WRITE_BYTE s"
  by (simp_all add: jswrap_waveform_startInput_def jswrap_waveform_startOutput_def)

text \<open>
  What a call of \<open>jswrap_waveform_start\<close> that passes the checks does to each part of the
  state.
\<close>

lemma start_valid:
  assumes "\<not> w_running (objs s w)" and "jshIsPinValid ext p"
    and "isfinite fr" and "\<not> float_less fr (Finite 1)"
  shows "objs (jswrap_waveform_start ext w p fr options et s) =
           (objs s)(w := (objs s w)\<lparr>w_running := True, w_freq := Some fr\<rparr>)
   \<and> waveforms (jswrap_waveform_start ext w p fr options et s) =
       (case waveforms s of
          Some ws \<Rightarrow> Some (ws @ [w])
        | None \<Rightarrow> if array_created ext then Some [w] else None)
   \<and> timer (jswrap_waveform_start ext w p fr options et s) =
       snd (start_signal ext w p fr options et s)
   \<and> console (jswrap_waveform_start ext w p fr options et s) =
       console s @ (if options = NotObject then [options_error] else [])
         @ (if fst (start_signal ext w p fr options et s) then []
            else [JsWarn ''Unable to schedule a timer''])
   \<and> queue (jswrap_waveform_start ext w p fr options et s) = queue s"
proof -
  have sig: "start_signal ext w p fr options et (jsErrorMsg m s) =
             start_signal ext w p fr options et s" for m
    by (simp add: start_signal_def jsErrorMsg_def)
  show ?thesis
  proof (cases "waveforms s")
    case None
    show ?thesis
    proof (cases options)
      case Undefined
      with assms None show ?thesis
        by (simp add: jswrap_waveform_start_def start_signal_def jsErrorMsg_def Let_def
            split_beta)
    next
      case (Object opts)
      with assms None show ?thesis
        by (simp add: jswrap_waveform_start_def start_signal_def jsErrorMsg_def Let_def
            split_beta)
    next
      case NotObject
      with assms None show ?thesis
        by (simp add: jswrap_waveform_start_def start_signal_def jsErrorMsg_def Let_def
            split_beta)
    qed
  next
    case (Some ws)
    show ?thesis
    proof (cases options)
      case Undefined
      with assms Some show ?thesis
        by (simp add: jswrap_waveform_start_def start_signal_def jsErrorMsg_def Let_def
            split_beta)
    next
      case (Object opts)
      with assms Some show ?thesis
        by (simp add: jswrap_waveform_start_def start_signal_def jsErrorMsg_def Let_def
            split_beta)
    next
      case NotObject
      with assms Some show ?thesis
        by (simp add: jswrap_waveform_start_def start_signal_def jsErrorMsg_def Let_def
            split_beta)
    qed
  qed
qed

text \<open>
  C1, as the code has it: a call of Start (\<open>startOutput\<close> and \<open>startInput\<close> both end
  in \<open>jswrap_waveform_start\<close>) on a Waveform that is not running, with a valid pin and a
  finite frequency of at least 1, hands the transfer to \<open>jstStartSignal\<close> and then, whatever
  that call returns, sets \<open>running\<close>, records the frequency and appends the Waveform to the
  active set (which it creates when absent; when it cannot, the Waveform is left out).
  When the call fails the warning "Unable to schedule a timer" is reported, and when it
  succeeds nothing is; the only other message is the one about a malformed \<open>options\<close>.
  No event is queued.
\<close>

theorem start_runs_after_failed_schedule:
  assumes "\<not> w_running (objs s w)" and "jshIsPinValid ext p"
    and "isfinite fr" and "\<not> float_less fr (Finite 1)"
  shows "objs (jswrap_waveform_start ext w p fr options et s) =
           (objs s)(w := (objs s w)\<lparr>w_running := True, w_freq := Some fr\<rparr>)
   \<and> waveforms (jswrap_waveform_start ext w p fr options et s) =
       (case waveforms s of
          Some ws \<Rightarrow> Some (ws @ [w])
        | None \<Rightarrow> if array_created ext then Some [w] else None)
   \<and> timer (jswrap_waveform_start ext w p fr options et s) =
       snd (start_signal ext w p fr options et s)
   \<and> console (jswrap_waveform_start ext w p fr options et s) =
       console s @ (if options = NotObject then [options_error] else [])
         @ (if fst (start_signal ext w p fr options et s) then []
            else [JsWarn ''Unable to schedule a timer''])
   \<and> queue (jswrap_waveform_start ext w p fr options et s) = queue s"
  using assms by (rule start_valid)

theorem start_runs_after_failed_schedule_witness:
  "\<not> w_running (objs single_state 10)
   \<and> jshIsPinValid (slot_timer 0) 3
   \<and> isfinite (Finite 1000) \<and> \<not> float_less (Finite 1000) (Finite 1)
   \<and> \<not> fst (start_signal (slot_timer 0) 10 3 (Finite 1000) Undefined UET_READ_BYTE single_state)
   \<and> w_running (objs (jswrap_waveform_start (slot_timer 0) 10 3 (Finite 1000) Undefined
                         UET_READ_BYTE single_state) 10)
   \<and> waveforms (jswrap_waveform_start (slot_timer 0) 10 3 (Finite 1000) Undefined
                   UET_READ_BYTE single_state) = Some [10]
   \<and> console (jswrap_waveform_start (slot_timer 0) 10 3 (Finite 1000) Undefined
                 UET_READ_BYTE single_state) = [JsWarn ''Unable to schedule a timer'']
   \<and> fst (start_signal (slot_timer 4) 10 3 (Finite 1000) Undefined UET_READ_BYTE single_state)
   \<and> console (jswrap_waveform_start (slot_timer 4) 10 3 (Finite 1000) Undefined
                 UET_READ_BYTE single_state) = []
   \<and> w_running (objs (jswrap_waveform_start ((slot_timer 0)\<lparr>array_created := False\<rparr>) 10 3
                         (Finite 1000) Undefined UET_READ_BYTE single_state) 10)
   \<and> waveforms (jswrap_waveform_start ((slot_timer 0)\<lparr>array_created := False\<rparr>) 10 3
                   (Finite 1000) Undefined UET_READ_BYTE single_state) = None"
proof -
  have h1: "\<not> w_running (objs single_state 10)" by (simp add: single_state_eval)
  have h2: "jshIsPinValid (slot_timer 0) 3" "jshIsPinValid (slot_timer 4) 3"
    "jshIsPinValid ((slot_timer 0)\<lparr>array_created := False\<rparr>) 3"
    by (simp_all add: slot_timer_def)
  have h3: "isfinite (Finite 1000)" by simp
  have h4: "\<not> float_less (Finite 1000) (Finite 1)" by simp
  have f0: "\<not> fst (start_signal (slot_timer 0) 10 3 (Finite 1000) Undefined UET_READ_BYTE
                     single_state)"
    by (simp add: start_signal_def slot_timer_def)
  have f4: "fst (start_signal (slot_timer 4) 10 3 (Finite 1000) Undefined UET_READ_BYTE
                   single_state)"
    by (simp add: start_signal_def slot_timer_def single_state_eval init_state_def)
  have e: "waveforms single_state = None" "console single_state = []"
    "array_created (slot_timer 0)" "\<not> array_created ((slot_timer 0)\<lparr>array_created := False\<rparr>)"
    by (simp_all add: single_state_eval init_state_def slot_timer_def)
  from start_runs_after_failed_schedule[OF h1 h2(1) h3 h4, of Undefined UET_READ_BYTE] f0 e
  have a: "w_running (objs (jswrap_waveform_start (slot_timer 0) 10 3 (Finite 1000) Undefined
                         UET_READ_BYTE single_state) 10)
   \<and> waveforms (jswrap_waveform_start (slot_timer 0) 10 3 (Finite 1000) Undefined
                   UET_READ_BYTE single_state) = Some [10]
   \<and> console (jswrap_waveform_start (slot_timer 0) 10 3 (Finite 1000) Undefined
                 UET_READ_BYTE single_state) = [JsWarn ''Unable to schedule a timer'']"
    by simp
  from start_runs_after_failed_schedule[OF h1 h2(2) h3 h4, of Undefined UET_READ_BYTE] f4 e
  have b: "console (jswrap_waveform_start (slot_timer 4) 10 3 (Finite 1000) Undefined
                 UET_READ_BYTE single_state) = []"
    by simp
  from start_runs_after_failed_schedule[OF h1 h2(3) h3 h4, of Undefined UET_READ_BYTE] e
  have c: "w_running (objs (jswrap_waveform_start ((slot_timer 0)\<lparr>array_created := False\<rparr>) 10 3
                         (Finite 1000) Undefined UET_READ_BYTE single_state) 10)
   \<and> waveforms (jswrap_waveform_start ((slot_timer 0)\<lparr>array_created := False\<rparr>) 10 3
                   (Finite 1000) Undefined UET_READ_BYTE single_state) = None"
    by simp
  from h1 h2(1) h3 h4 f0 f4 a b c show ?thesis by blast
qed

text \<open>
  With no task slot free the scheduling fails, and the Waveform is running and in the
  active set all the same.
\<close>

theorem start_failed_schedule_counterexample:
  "\<not> w_running (objs single_state 10)
   \<and> jshIsPinValid (slot_timer 0) 3
   \<and> \<not> fst (jstStartSignal (slot_timer 0) (timer single_state) 100 1000 3 (JsString 13 8)
              JsUndefined UET_WRITE_BYTE)
   \<and> \<not> fst (start_signal (slot_timer 0) 10 3 (Finite 1000) Undefined UET_WRITE_BYTE single_state)
   \<and> w_running (objs (jswrap_waveform_startOutput (slot_timer 0) 10 3 (Finite 1000) Undefined
                         single_state) 10)
   \<and> active_set (jswrap_waveform_startOutput (slot_timer 0) 10 3 (Finite 1000) Undefined
                    single_state) = [10]
   \<and> console (jswrap_waveform_startOutput (slot_timer 0) 10 3 (Finite 1000) Undefined
                 single_state) = [JsWarn ''Unable to schedule a timer'']"
  by (simp add: run_defs)

text \<open>
  C4, as the code has it: for an \<open>options\<close> argument that is neither undefined nor an
  object, the constructor (given \<open>samples > 0\<close>) and Start (given a valid call) report
  "Expecting options to be undefined or an Object" and then go on exactly as with no
  options: the constructor builds and returns the Waveform, Start sets \<open>running\<close> and hands
  the transfer to \<open>jstStartSignal\<close>, starting now and without a repeat buffer.
\<close>

theorem options_not_object_reported:
  "(0 < samples \<longrightarrow>
      jswrap_waveform_constructor al samples NotObject s =
        jswrap_waveform_constructor al samples Undefined (jsErrorMsg options_error s)
      \<and> console (snd (jswrap_waveform_constructor al samples NotObject s)) =
          console s @ [options_error])
   \<and> (\<not> w_running (objs s w) \<and> jshIsPinValid ext p \<and> isfinite fr \<and> \<not> float_less fr (Finite 1) \<longrightarrow>
      jswrap_waveform_start ext w p fr NotObject et s =
        jswrap_waveform_start ext w p fr Undefined et (jsErrorMsg options_error s)
      \<and> w_running (objs (jswrap_waveform_start ext w p fr NotObject et s) w)
      \<and> timer (jswrap_waveform_start ext w p fr NotObject et s) =
          snd (jstStartSignal ext (timer s) (jshGetSystemTime ext)
                 (jshGetTimeFromMilliseconds ext (double_div ext (Finite 1000) fr)) p
                 (jswrap_waveform_getBuffer (objs s w) 0) JsUndefined et))"
proof (intro conjI impI)
  assume "0 < samples"
  then show "jswrap_waveform_constructor al samples NotObject s =
        jswrap_waveform_constructor al samples Undefined (jsErrorMsg options_error s)"
    by (simp add: jswrap_waveform_constructor_def Let_def)
next
  assume "0 < samples"
  then show "console (snd (jswrap_waveform_constructor al samples NotObject s)) =
          console s @ [options_error]"
    by (simp add: jswrap_waveform_constructor_def jsErrorMsg_def Let_def split: option.splits)
next
  assume v: "\<not> w_running (objs s w) \<and> jshIsPinValid ext p \<and> isfinite fr
             \<and> \<not> float_less fr (Finite 1)"
  let ?e = "jsErrorMsg options_error s"
  from v have v': "\<not> w_running (objs ?e w)" by (simp add: jsErrorMsg_def)
  have sg: "start_signal ext w p fr NotObject et s =
      jstStartSignal ext (timer s) (jshGetSystemTime ext)
                 (jshGetTimeFromMilliseconds ext (double_div ext (Finite 1000) fr)) p
                 (jswrap_waveform_getBuffer (objs s w) 0) JsUndefined et"
    "start_signal ext w p fr Undefined et ?e = start_signal ext w p fr NotObject et s"
    by (simp_all add: start_signal_def jsErrorMsg_def)
  note l = start_valid[of s w ext p fr NotObject et]
  note r = start_valid[OF v', of ext p fr Undefined et]
  from v l r sg
  show "jswrap_waveform_start ext w p fr NotObject et s =
        jswrap_waveform_start ext w p fr Undefined et ?e"
    by (intro js_state.equality) (simp_all add: jsErrorMsg_def)
  from v l show "w_running (objs (jswrap_waveform_start ext w p fr NotObject et s) w)"
    by simp
  from v l sg show "timer (jswrap_waveform_start ext w p fr NotObject et s) =
          snd (jstStartSignal ext (timer s) (jshGetSystemTime ext)
                 (jshGetTimeFromMilliseconds ext (double_div ext (Finite 1000) fr)) p
                 (jswrap_waveform_getBuffer (objs s w) 0) JsUndefined et)"
    by simp
qed

theorem options_not_object_reported_witness:
  "(0::int) < 8
   \<and> jswrap_waveform_constructor single_allocs 8 NotObject init_state =
       jswrap_waveform_constructor single_allocs 8 Undefined (jsErrorMsg options_error init_state)
   \<and> console (snd (jswrap_waveform_constructor single_allocs 8 NotObject init_state)) =
       [options_error]
   \<and> \<not> w_running (objs single_state 10) \<and> jshIsPinValid (slot_timer 4) 3
   \<and> isfinite (Finite 1000) \<and> \<not> float_less (Finite 1000) (Finite 1)
   \<and> jswrap_waveform_start (slot_timer 4) 10 3 (Finite 1000) NotObject UET_WRITE_BYTE single_state =
       jswrap_waveform_start (slot_timer 4) 10 3 (Finite 1000) Undefined UET_WRITE_BYTE
         (jsErrorMsg options_error single_state)
   \<and> w_running (objs (jswrap_waveform_start (slot_timer 4) 10 3 (Finite 1000) NotObject
                         UET_WRITE_BYTE single_state) 10)"
proof -
  have h0: "(0::int) < 8" by simp
  have h1: "\<not> w_running (objs single_state 10) \<and> jshIsPinValid (slot_timer 4) 3
    \<and> isfinite (Finite 1000) \<and> \<not> float_less (Finite 1000) (Finite 1)"
    by (simp add: single_state_eval slot_timer_def)
  have e: "console init_state = []" by (simp add: init_state_def)
  note inst = options_not_object_reported[where samples = 8 and al = single_allocs
      and s = init_state]
  from inst h0 have c1: "jswrap_waveform_constructor single_allocs 8 NotObject init_state =
       jswrap_waveform_constructor single_allocs 8 Undefined (jsErrorMsg options_error init_state)"
    by blast
  from inst h0 have "console (snd (jswrap_waveform_constructor single_allocs 8 NotObject init_state)) =
       console init_state @ [options_error]" by blast
  with e have c2: "console (snd (jswrap_waveform_constructor single_allocs 8 NotObject init_state)) =
       [options_error]" by simp
  note c = conjI[OF c1 c2]
  from options_not_object_reported[where s = single_state and w = 10 and ext = "slot_timer 4"
      and p = 3 and fr = "Finite 1000" and et = UET_WRITE_BYTE] h1
  have d: "jswrap_waveform_start (slot_timer 4) 10 3 (Finite 1000) NotObject UET_WRITE_BYTE single_state =
       jswrap_waveform_start (slot_timer 4) 10 3 (Finite 1000) Undefined UET_WRITE_BYTE
         (jsErrorMsg options_error single_state)
   \<and> w_running (objs (jswrap_waveform_start (slot_timer 4) 10 3 (Finite 1000) NotObject
                         UET_WRITE_BYTE single_state) 10)" by blast
  from h0 h1 c d show ?thesis by blast
qed

text \<open>
  \<open>new Waveform(8, x)\<close> and \<open>startOutput(3, 1000, x)\<close> for an \<open>x\<close> that is not an object:
  the object is created, and the task is scheduled.
\<close>

theorem options_not_object_counterexample:
  "fst (jswrap_waveform_constructor single_allocs 8 NotObject init_state) = 10
   \<and> objs (snd (jswrap_waveform_constructor single_allocs 8 NotObject init_state)) 10 =
       \<lparr>w_buffer = JsArrayBuffer 11 8 (JsArrayBuffer 12 8 (JsString 13 8)),
        w_buffer2 = JsUndefined, w_running = False, w_freq = None, w_currentBuffer = None\<rparr>
   \<and> timer (jswrap_waveform_startOutput (slot_timer 4) 10 3 (Finite 1000) NotObject single_state) =
       [\<lparr>task_time = 100, task_repeatInterval = 1000, task_pin = 3, task_currentBuffer = 13,
         task_nextBuffer = 0, task_type = UET_WRITE_BYTE\<rparr>]
   \<and> w_running (objs (jswrap_waveform_startOutput (slot_timer 4) 10 3 (Finite 1000) NotObject
                         single_state) 10)"
  by (simp add: run_defs)

text \<open>
  C5: the method's documentation says \<open>time\<close> is the time the waveform starts at, and
  otherwise the start is immediate. The code tests \<open>!isfinite(t) && t>0\<close>: for every finite
  \<open>time\<close>, positive or not, the transfer is handed to \<open>jstStartSignal\<close> with the current
  system time as its start time.
\<close>

theorem start_ignores_finite_time:
  assumes "\<not> w_running (objs s w)" and "jshIsPinValid ext p"
    and "isfinite fr" and "\<not> float_less fr (Finite 1)"
    and "isfinite (opt_time opts)"
  shows "timer (jswrap_waveform_start ext w p fr (Object opts) et s) =
     snd (jstStartSignal ext (timer s) (jshGetSystemTime ext)
            (jshGetTimeFromMilliseconds ext (double_div ext (Finite 1000) fr)) p
            (jswrap_waveform_getBuffer (objs s w) 0)
            (if opt_repeat opts
             then (if \<not> jsvIsUndefined (jswrap_waveform_getBuffer (objs s w) 1)
                   then jswrap_waveform_getBuffer (objs s w) 1
                   else jswrap_waveform_getBuffer (objs s w) 0)
             else JsUndefined) et)"
proof -
  from assms(5) have "start_signal ext w p fr (Object opts) et s =
     jstStartSignal ext (timer s) (jshGetSystemTime ext)
            (jshGetTimeFromMilliseconds ext (double_div ext (Finite 1000) fr)) p
            (jswrap_waveform_getBuffer (objs s w) 0)
            (if opt_repeat opts
             then (if \<not> jsvIsUndefined (jswrap_waveform_getBuffer (objs s w) 1)
                   then jswrap_waveform_getBuffer (objs s w) 1
                   else jswrap_waveform_getBuffer (objs s w) 0)
             else JsUndefined) et"
    by (simp add: start_signal_def)
  with start_valid[OF assms(1-4), of "Object opts" et] show ?thesis by simp
qed

theorem start_ignores_finite_time_witness:
  "\<not> w_running (objs single_state 10) \<and> jshIsPinValid (slot_timer 4) 3
   \<and> isfinite (Finite 1000) \<and> \<not> float_less (Finite 1000) (Finite 1)
   \<and> isfinite (opt_time \<lparr>opt_time = Finite 5000, opt_repeat = False\<rparr>)
   \<and> jshGetSystemTime (slot_timer 4) = 100
   \<and> jshGetTimeFromMilliseconds (slot_timer 4) (double_div (slot_timer 4) (Finite 5000) (Finite 1000)) = 5000
   \<and> timer (jswrap_waveform_start (slot_timer 4) 10 3 (Finite 1000)
              (Object \<lparr>opt_time = Finite 5000, opt_repeat = False\<rparr>) UET_WRITE_BYTE
              single_state) =
       [\<lparr>task_time = 100, task_repeatInterval = 1000, task_pin = 3, task_currentBuffer = 13,
         task_nextBuffer = 0, task_type = UET_WRITE_BYTE\<rparr>]"
proof -
  have h1: "\<not> w_running (objs single_state 10)" by (simp add: single_state_eval)
  have h2: "jshIsPinValid (slot_timer 4) 3" by (simp add: slot_timer_def)
  have h3: "isfinite (Finite 1000)" by simp
  have h4: "\<not> float_less (Finite 1000) (Finite 1)" by simp
  have h5: "isfinite (opt_time \<lparr>opt_time = Finite 5000, opt_repeat = False\<rparr>)" by simp
  have e: "jshGetSystemTime (slot_timer 4) = 100"
    "jshGetTimeFromMilliseconds (slot_timer 4) (double_div (slot_timer 4) (Finite 5000) (Finite 1000)) = 5000"
    by (simp_all add: slot_timer_def)
  have r: "snd (jstStartSignal (slot_timer 4) (timer single_state) (jshGetSystemTime (slot_timer 4))
            (jshGetTimeFromMilliseconds (slot_timer 4)
               (double_div (slot_timer 4) (Finite 1000) (Finite 1000))) 3
            (jswrap_waveform_getBuffer (objs single_state 10) 0) JsUndefined UET_WRITE_BYTE) =
       [\<lparr>task_time = 100, task_repeatInterval = 1000, task_pin = 3, task_currentBuffer = 13,
         task_nextBuffer = 0, task_type = UET_WRITE_BYTE\<rparr>]"
    by (simp add: single_state_eval init_state_def slot_timer_def jswrap_waveform_getBuffer_def)
  from start_ignores_finite_time[OF h1 h2 h3 h4 h5, of UET_WRITE_BYTE] r
  have "timer (jswrap_waveform_start (slot_timer 4) 10 3 (Finite 1000)
              (Object \<lparr>opt_time = Finite 5000, opt_repeat = False\<rparr>) UET_WRITE_BYTE
              single_state) =
       [\<lparr>task_time = 100, task_repeatInterval = 1000, task_pin = 3, task_currentBuffer = 13,
         task_nextBuffer = 0, task_type = UET_WRITE_BYTE\<rparr>]"
    by simp
  with h1 h2 h3 h4 h5 e show ?thesis by blast
qed

subsection \<open>The constructor\<close>

text \<open>
  C8: for \<open>samples > 0\<close> and successful allocation, the constructor with
  \<open>doubleBuffer:true\<close> returns a Waveform whose \<open>buffer\<close> and \<open>buffer2\<close> are two typed arrays
  of length \<open>samples\<close> (each a view over an ArrayBuffer over a flat string of that length);
  with \<open>doubleBuffer:false\<close> or no options it returns a Waveform with one such \<open>buffer\<close> and
  no \<open>buffer2\<close>.
\<close>

theorem constructor_buffers:
  assumes "0 < samples" and "new_waveform al = Some w"
    and "new_arrayBuffer al = Some (v1, b1, d1)"
  shows "(new_arrayBuffer2 al = Some (v2, b2, d2) \<longrightarrow>
           fst (jswrap_waveform_constructor al samples (Object True) s) = w
           \<and> objs (snd (jswrap_waveform_constructor al samples (Object True) s)) w =
               \<lparr>w_buffer = JsArrayBuffer v1 (nat samples)
                             (JsArrayBuffer b1 (nat samples) (JsString d1 (nat samples))),
                w_buffer2 = JsArrayBuffer v2 (nat samples)
                              (JsArrayBuffer b2 (nat samples) (JsString d2 (nat samples))),
                w_running = False, w_freq = None, w_currentBuffer = None\<rparr>
           \<and> jsvGetLength
                 (w_buffer (objs (snd (jswrap_waveform_constructor al samples (Object True) s)) w)) =
               nat samples
           \<and> jsvGetLength
                 (w_buffer2 (objs (snd (jswrap_waveform_constructor al samples (Object True) s)) w)) =
               nat samples)
       \<and> (options = Undefined \<or> options = Object False \<longrightarrow>
           fst (jswrap_waveform_constructor al samples options s) = w
           \<and> objs (snd (jswrap_waveform_constructor al samples options s)) w =
               \<lparr>w_buffer = JsArrayBuffer v1 (nat samples)
                             (JsArrayBuffer b1 (nat samples) (JsString d1 (nat samples))),
                w_buffer2 = JsUndefined,
                w_running = False, w_freq = None, w_currentBuffer = None\<rparr>
           \<and> jsvGetLength
                 (w_buffer (objs (snd (jswrap_waveform_constructor al samples options s)) w)) =
               nat samples
           \<and> jsvIsUndefined
                 (w_buffer2 (objs (snd (jswrap_waveform_constructor al samples options s)) w)))"
  using assms
  by (auto simp: jswrap_waveform_constructor_def jswrap_typedarray_constructor_def
      jspNewObject_def)

theorem constructor_buffers_witness:
  "(0::int) < 8 \<and> new_waveform double_allocs = Some 10
   \<and> new_arrayBuffer double_allocs = Some (11, 12, 13)
   \<and> new_arrayBuffer2 double_allocs = Some (14, 15, 16)
   \<and> fst (jswrap_waveform_constructor double_allocs 8 (Object True) init_state) = 10
   \<and> objs (snd (jswrap_waveform_constructor double_allocs 8 (Object True) init_state)) 10 =
       \<lparr>w_buffer = JsArrayBuffer 11 8 (JsArrayBuffer 12 8 (JsString 13 8)),
        w_buffer2 = JsArrayBuffer 14 8 (JsArrayBuffer 15 8 (JsString 16 8)),
        w_running = False, w_freq = None, w_currentBuffer = None\<rparr>
   \<and> fst (jswrap_waveform_constructor double_allocs 8 Undefined init_state) = 10
   \<and> objs (snd (jswrap_waveform_constructor double_allocs 8 Undefined init_state)) 10 =
       \<lparr>w_buffer = JsArrayBuffer 11 8 (JsArrayBuffer 12 8 (JsString 13 8)),
        w_buffer2 = JsUndefined, w_running = False, w_freq = None, w_currentBuffer = None\<rparr>"
proof -
  have h1: "(0::int) < 8" by simp
  have h2: "new_waveform double_allocs = Some 10" by (simp add: double_allocs_def)
  have h3: "new_arrayBuffer double_allocs = Some (11, 12, 13)" by (simp add: double_allocs_def)
  have h4: "new_arrayBuffer2 double_allocs = Some (14, 15, 16)" by (simp add: double_allocs_def)
  from constructor_buffers[OF h1 h2 h3, of 14 15 16 init_state Undefined] h1 h2 h3 h4
  show ?thesis by simp
qed

subsection \<open>Polling\<close>

text \<open>
  C6: for a running Waveform in the active set whose task the timer reports with a next
  buffer different from its current buffer, one poll pass does this. When the index of the
  task's current buffer (0 if it is the primary buffer's storage, else 1) differs from the
  recorded \<open>currentBuffer\<close> (an absent one reads 0), exactly one event is queued for the
  Waveform, "#onbuffer" with the slot at the new index, and the index is recorded. When the
  index is the recorded one, no event is queued, and the Waveform is unchanged (but that a
  \<open>currentBuffer\<close> that was absent now holds the index). A second pass right after the
  first queues nothing for it and leaves it as it is. The Waveform stays running and in the
  active set.
\<close>

theorem poll_buffer_swap:
  assumes "w \<in> set (active_set s)" and "w_running (objs s w)"
    and "jstGetLastBufferTimerTask ext (timer s) (jswrap_waveform_getBuffer (objs s w) 0) = Some task"
    and "task_nextBuffer task \<noteq> 0" and "task_nextBuffer task \<noteq> task_currentBuffer task"
  shows "(recorded_index (objs s w) \<noteq> buffer_index (objs s w) task \<longrightarrow>
            events_for w (snd (jswrap_waveform_idle ext s)) =
              events_for w s @ [(w, ''#onbuffer'',
                 if buffer_index (objs s w) task = 0 then w_buffer (objs s w)
                 else w_buffer2 (objs s w))]
            \<and> objs (snd (jswrap_waveform_idle ext s)) w =
                (objs s w)\<lparr>w_currentBuffer := Some (buffer_index (objs s w) task)\<rparr>)
       \<and> (recorded_index (objs s w) = buffer_index (objs s w) task \<longrightarrow>
            events_for w (snd (jswrap_waveform_idle ext s)) = events_for w s
            \<and> objs (snd (jswrap_waveform_idle ext s)) w =
                (objs s w)\<lparr>w_currentBuffer := Some (buffer_index (objs s w) task)\<rparr>)
       \<and> (w_currentBuffer (objs s w) = Some (buffer_index (objs s w) task) \<longrightarrow>
            events_for w (snd (jswrap_waveform_idle ext s)) = events_for w s
            \<and> objs (snd (jswrap_waveform_idle ext s)) w = objs s w)
       \<and> events_for w (snd (jswrap_waveform_idle ext (snd (jswrap_waveform_idle ext s)))) =
           events_for w (snd (jswrap_waveform_idle ext s))
       \<and> objs (snd (jswrap_waveform_idle ext (snd (jswrap_waveform_idle ext s)))) w =
           objs (snd (jswrap_waveform_idle ext s)) w
       \<and> w_running (objs (snd (jswrap_waveform_idle ext s)) w)
       \<and> w \<in> set (active_set (snd (jswrap_waveform_idle ext s)))"
proof -
  let ?s1 = "snd (jswrap_waveform_idle ext s)"
  let ?i = "buffer_index (objs s w) task"
  note first = idle_buffer[OF assms]
  then have o1: "objs ?s1 w = (objs s w)\<lparr>w_currentBuffer := Some ?i\<rparr>"
    and in1: "w \<in> set (active_set ?s1)" by simp_all
  have run1: "w_running (objs ?s1 w)" using o1 assms(2) by simp
  have q1: "jstGetLastBufferTimerTask ext (timer ?s1)
              (jswrap_waveform_getBuffer (objs ?s1 w) 0) = Some task"
    using o1 assms(3) by (simp add: idle_frame)
  have i1: "buffer_index (objs ?s1 w) task = ?i" using o1 by (simp add: buffer_index_def)
  have rec1: "recorded_index (objs ?s1 w) = ?i" using o1 by (simp add: recorded_index_def)
  from idle_buffer[OF in1 run1 q1 assms(4,5)] i1 rec1 o1
  have second: "events_for w (snd (jswrap_waveform_idle ext ?s1)) = events_for w ?s1"
    "objs (snd (jswrap_waveform_idle ext ?s1)) w = objs ?s1 w" by simp_all
  have same: "w_currentBuffer (objs s w) = Some ?i \<Longrightarrow>
      (objs s w)\<lparr>w_currentBuffer := Some ?i\<rparr> = objs s w
      \<and> recorded_index (objs s w) = ?i"
    by (simp add: recorded_index_def)
  from first second run1 same show ?thesis by (auto simp: buffer_event_def)
qed

theorem poll_buffer_swap_witness:
  "10 \<in> set (active_set double_swapped) \<and> w_running (objs double_swapped 10)
   \<and> jstGetLastBufferTimerTask (slot_timer 4) (timer double_swapped)
        (jswrap_waveform_getBuffer (objs double_swapped 10) 0) =
       Some \<lparr>task_time = 100, task_repeatInterval = 1000, task_pin = 3, task_currentBuffer = 16,
             task_nextBuffer = 13, task_type = UET_WRITE_BYTE\<rparr>
   \<and> recorded_index (objs double_swapped 10) = 0
   \<and> events_for 10 (snd (jswrap_waveform_idle (slot_timer 4) double_swapped)) =
       [(10, ''#onbuffer'', JsArrayBuffer 14 8 (JsArrayBuffer 15 8 (JsString 16 8)))]
   \<and> w_currentBuffer (objs (snd (jswrap_waveform_idle (slot_timer 4) double_swapped)) 10) = Some 1
   \<and> events_for 10 (snd (jswrap_waveform_idle (slot_timer 4)
                            (snd (jswrap_waveform_idle (slot_timer 4) double_swapped)))) =
       [(10, ''#onbuffer'', JsArrayBuffer 14 8 (JsArrayBuffer 15 8 (JsString 16 8)))]
   \<and> objs (snd (jswrap_waveform_idle (slot_timer 4)
                   (snd (jswrap_waveform_idle (slot_timer 4) double_swapped)))) 10 =
       objs (snd (jswrap_waveform_idle (slot_timer 4) double_swapped)) 10"
proof -
  let ?task = "\<lparr>task_time = 100, task_repeatInterval = 1000, task_pin = 3, task_currentBuffer = 16,
             task_nextBuffer = 13, task_type = UET_WRITE_BYTE\<rparr>"
  have h1: "10 \<in> set (active_set double_swapped)"
    by (simp add: double_swapped_eval active_set_def)
  have h2: "w_running (objs double_swapped 10)"
    by (simp add: double_swapped_eval double_started_eval)
  have h3: "jstGetLastBufferTimerTask (slot_timer 4) (timer double_swapped)
        (jswrap_waveform_getBuffer (objs double_swapped 10) 0) = Some ?task"
    by (simp add: double_swapped_eval double_started_eval slot_timer_def refers_to_def
        jswrap_waveform_getBuffer_def)
  have h4: "task_nextBuffer ?task \<noteq> 0" by simp
  have h5: "task_nextBuffer ?task \<noteq> task_currentBuffer ?task" by simp
  have e: "recorded_index (objs double_swapped 10) = 0"
    "buffer_index (objs double_swapped 10) ?task = 1"
    "events_for 10 double_swapped = []"
    "w_buffer2 (objs double_swapped 10) = JsArrayBuffer 14 8 (JsArrayBuffer 15 8 (JsString 16 8))"
    by (simp_all add: double_swapped_eval double_started_eval recorded_index_def
        buffer_index_def jswrap_waveform_getBuffer_def events_for_def)
  from poll_buffer_swap[OF h1 h2 h3 h4 h5] e h1 h2 h3 show ?thesis by simp
qed

text \<open>
  C7: for a running Waveform in the active set whose task the timer reports absent, one
  poll pass clears \<open>running\<close>, queues exactly one event for it, "#onfinish" with the
  primary buffer, and removes it from the active set; after that, poll passes (whatever the
  timer's state at each) queue nothing for it, leave it unchanged and out of the active set.
\<close>

theorem poll_task_absent_finishes:
  assumes "w \<in> set (active_set s)" and "w_running (objs s w)"
    and "jstGetLastBufferTimerTask ext (timer s) (jswrap_waveform_getBuffer (objs s w) 0) = None"
  shows "\<not> w_running (objs (snd (jswrap_waveform_idle ext s)) w)
   \<and> objs (snd (jswrap_waveform_idle ext s)) w = (objs s w)\<lparr>w_running := False\<rparr>
   \<and> events_for w (snd (jswrap_waveform_idle ext s)) =
       events_for w s @ [(w, ''#onfinish'', w_buffer (objs s w))]
   \<and> w \<notin> set (active_set (snd (jswrap_waveform_idle ext s)))
   \<and> (\<forall>tms. objs (idle_passes ext tms (snd (jswrap_waveform_idle ext s))) w =
               objs (snd (jswrap_waveform_idle ext s)) w
            \<and> events_for w (idle_passes ext tms (snd (jswrap_waveform_idle ext s))) =
               events_for w (snd (jswrap_waveform_idle ext s))
            \<and> w \<notin> set (active_set (idle_passes ext tms (snd (jswrap_waveform_idle ext s)))))"
proof -
  note fin = idle_finish[OF assms]
  then have out: "w \<notin> set (active_set (snd (jswrap_waveform_idle ext s)))" by simp
  from fin idle_passes_absent[OF out] show ?thesis by simp
qed

theorem poll_task_absent_finishes_witness:
  "10 \<in> set (active_set single_finished) \<and> w_running (objs single_finished 10)
   \<and> jstGetLastBufferTimerTask (slot_timer 4) (timer single_finished)
        (jswrap_waveform_getBuffer (objs single_finished 10) 0) = None
   \<and> \<not> w_running (objs (snd (jswrap_waveform_idle (slot_timer 4) single_finished)) 10)
   \<and> events_for 10 (snd (jswrap_waveform_idle (slot_timer 4) single_finished)) =
       [(10, ''#onfinish'', JsArrayBuffer 11 8 (JsArrayBuffer 12 8 (JsString 13 8)))]
   \<and> 10 \<notin> set (active_set (snd (jswrap_waveform_idle (slot_timer 4) single_finished)))
   \<and> events_for 10 (idle_passes (slot_timer 4) [[], []]
                       (snd (jswrap_waveform_idle (slot_timer 4) single_finished))) =
       [(10, ''#onfinish'', JsArrayBuffer 11 8 (JsArrayBuffer 12 8 (JsString 13 8)))]"
proof -
  have h1: "10 \<in> set (active_set single_finished)"
    by (simp add: single_finished_eval active_set_def)
  have h2: "w_running (objs single_finished 10)"
    by (simp add: single_finished_eval single_started_eval)
  have h3: "jstGetLastBufferTimerTask (slot_timer 4) (timer single_finished)
        (jswrap_waveform_getBuffer (objs single_finished 10) 0) = None"
    by (simp add: single_finished_eval slot_timer_def)
  have e: "events_for 10 single_finished = []"
    "w_buffer (objs single_finished 10) = JsArrayBuffer 11 8 (JsArrayBuffer 12 8 (JsString 13 8))"
    by (simp_all add: single_finished_eval single_started_eval events_for_def)
  from poll_task_absent_finishes[OF h1 h2 h3] e h1 h2 h3 show ?thesis by simp
qed

subsection \<open>Stop and kill\<close>

text \<open>
  C2, as the code has it: Stop on a running Waveform in the active set asks the timer to
  cancel the task and runs one poll pass before it returns. If the timer then reports no
  task for the primary buffer, \<open>running\<close> is false on return, exactly one event has been
  queued for the Waveform, "#onfinish" with the primary buffer, and it has left the active
  set. If the timer still reports a task, the Waveform is running and in the active set on
  return, and no finish callback has been queued for it.
\<close>

theorem stop_polls_after_cancel:
  assumes "w \<in> set (active_set s)" and "w_running (objs s w)"
  shows "(jstGetLastBufferTimerTask ext
           (snd (jstStopBufferTimerTask ext (timer s) (jswrap_waveform_getBuffer (objs s w) 0)))
           (jswrap_waveform_getBuffer (objs s w) 0) = None \<longrightarrow>
         \<not> w_running (objs (jswrap_waveform_stop ext w s) w)
         \<and> events_for w (jswrap_waveform_stop ext w s) =
             events_for w s @ [(w, ''#onfinish'', w_buffer (objs s w))]
         \<and> w \<notin> set (active_set (jswrap_waveform_stop ext w s)))
     \<and> (jstGetLastBufferTimerTask ext
           (snd (jstStopBufferTimerTask ext (timer s) (jswrap_waveform_getBuffer (objs s w) 0)))
           (jswrap_waveform_getBuffer (objs s w) 0) \<noteq> None \<longrightarrow>
         w_running (objs (jswrap_waveform_stop ext w s) w)
         \<and> finish_events w (jswrap_waveform_stop ext w s) = finish_events w s
         \<and> w \<in> set (active_set (jswrap_waveform_stop ext w s)))"
proof -
  let ?buf = "jswrap_waveform_getBuffer (objs s w) 0"
  obtain ok tm where st: "jstStopBufferTimerTask ext (timer s) ?buf = (ok, tm)"
    by (cases "jstStopBufferTimerTask ext (timer s) ?buf")
  define s1 where "s1 = (if \<not> ok then jsErrorMsg (JsError ''Waveform couldn't be stopped'')
                           (s\<lparr>timer := tm\<rparr>) else s\<lparr>timer := tm\<rparr>)"
  have s1: "objs s1 = objs s" "timer s1 = tm" "active_set s1 = active_set s"
    "events_for w s1 = events_for w s"
    by (simp_all add: s1_def jsErrorMsg_def)
  have run: "jswrap_waveform_stop ext w s = snd (jswrap_waveform_idle ext s1)"
    using assms(2) st by (simp add: jswrap_waveform_stop_def s1_def Let_def)
  from assms s1 have a: "w \<in> set (active_set s1)" "w_running (objs s1 w)" by simp_all
  have fe: "finish_events w s1 = finish_events w s" using s1 by (simp add: finish_events_def)
  show ?thesis
  proof (cases "jstGetLastBufferTimerTask ext tm ?buf")
    case None
    with s1 have "jstGetLastBufferTimerTask ext (timer s1)
        (jswrap_waveform_getBuffer (objs s1 w) 0) = None" by simp
    from idle_finish[OF a this] run s1 st None show ?thesis by simp
  next
    case (Some task)
    with s1 have "jstGetLastBufferTimerTask ext (timer s1)
        (jswrap_waveform_getBuffer (objs s1 w) 0) = Some task" by simp
    from idle_present[OF a this] run fe st Some show ?thesis by simp
  qed
qed

theorem stop_polls_after_cancel_witness:
  "10 \<in> set (active_set single_started)
   \<and> w_running (objs single_started 10)
   \<and> jstGetLastBufferTimerTask (slot_timer 4)
         (snd (jstStopBufferTimerTask (slot_timer 4) (timer single_started)
                 (jswrap_waveform_getBuffer (objs single_started 10) 0)))
         (jswrap_waveform_getBuffer (objs single_started 10) 0) = None
   \<and> \<not> w_running (objs (jswrap_waveform_stop (slot_timer 4) 10 single_started) 10)
   \<and> events_for 10 (jswrap_waveform_stop (slot_timer 4) 10 single_started) =
       [(10, ''#onfinish'', JsArrayBuffer 11 8 (JsArrayBuffer 12 8 (JsString 13 8)))]
   \<and> 10 \<notin> set (active_set (jswrap_waveform_stop (slot_timer 4) 10 single_started))
   \<and> jstGetLastBufferTimerTask (stuck_timer 4)
         (snd (jstStopBufferTimerTask (stuck_timer 4) (timer single_started)
                 (jswrap_waveform_getBuffer (objs single_started 10) 0)))
         (jswrap_waveform_getBuffer (objs single_started 10) 0) \<noteq> None
   \<and> w_running (objs (jswrap_waveform_stop (stuck_timer 4) 10 single_started) 10)
   \<and> finish_events 10 (jswrap_waveform_stop (stuck_timer 4) 10 single_started) = []
   \<and> 10 \<in> set (active_set (jswrap_waveform_stop (stuck_timer 4) 10 single_started))"
proof -
  have h1: "10 \<in> set (active_set single_started)"
    by (simp add: single_started_eval active_set_def)
  have h2: "w_running (objs single_started 10)" by (simp add: single_started_eval)
  have h3: "jstGetLastBufferTimerTask (slot_timer 4)
         (snd (jstStopBufferTimerTask (slot_timer 4) (timer single_started)
                 (jswrap_waveform_getBuffer (objs single_started 10) 0)))
         (jswrap_waveform_getBuffer (objs single_started 10) 0) = None"
    by (simp add: getBuffer_single_started single_started_eval slot_timer_def refers_to_def)
  have h4: "jstGetLastBufferTimerTask (stuck_timer 4)
         (snd (jstStopBufferTimerTask (stuck_timer 4) (timer single_started)
                 (jswrap_waveform_getBuffer (objs single_started 10) 0)))
         (jswrap_waveform_getBuffer (objs single_started 10) 0) \<noteq> None"
    by (simp add: single_started_eval stuck_timer_def slot_timer_def refers_to_def
        jswrap_waveform_getBuffer_def)
  have e: "events_for 10 single_started = []" "finish_events 10 single_started = []"
    "w_buffer (objs single_started 10) = JsArrayBuffer 11 8 (JsArrayBuffer 12 8 (JsString 13 8))"
    by (simp_all add: single_started_eval events_for_def finish_events_def)
  from stop_polls_after_cancel[OF h1 h2, of "slot_timer 4"] h3 e
  have a: "\<not> w_running (objs (jswrap_waveform_stop (slot_timer 4) 10 single_started) 10)
   \<and> events_for 10 (jswrap_waveform_stop (slot_timer 4) 10 single_started) =
       [(10, ''#onfinish'', JsArrayBuffer 11 8 (JsArrayBuffer 12 8 (JsString 13 8)))]
   \<and> 10 \<notin> set (active_set (jswrap_waveform_stop (slot_timer 4) 10 single_started))"
    by simp
  from stop_polls_after_cancel[OF h1 h2, of "stuck_timer 4"] h4 e
  have b: "w_running (objs (jswrap_waveform_stop (stuck_timer 4) 10 single_started) 10)
   \<and> finish_events 10 (jswrap_waveform_stop (stuck_timer 4) 10 single_started) = []
   \<and> 10 \<in> set (active_set (jswrap_waveform_stop (stuck_timer 4) 10 single_started))"
    by simp
  from h1 h2 h3 h4 a b show ?thesis by blast
qed

text \<open>
  When the cancellation fails and the task stays scheduled, Stop reports "Waveform couldn't
  be stopped"; the poll pass finds the task, so the Waveform is still running and in the
  active set, and no event is queued.
\<close>

theorem stop_counterexample:
  "w_running (objs single_started 10)
   \<and> active_set single_started = [10]
   \<and> events_for 10 single_started = []
   \<and> w_running (objs (jswrap_waveform_stop (stuck_timer 4) 10 single_started) 10)
   \<and> events_for 10 (jswrap_waveform_stop (stuck_timer 4) 10 single_started) = []
   \<and> active_set (jswrap_waveform_stop (stuck_timer 4) 10 single_started) = [10]
   \<and> console (jswrap_waveform_stop (stuck_timer 4) 10 single_started) =
       [JsError ''Waveform couldn't be stopped'']"
  by (simp add: single_started_eval jswrap_waveform_stop_def jswrap_waveform_idle_def
      idle_waveform_def jswrap_waveform_getBuffer_def jsErrorMsg_def stuck_timer_def
      slot_timer_def refers_to_def active_set_def events_for_def Let_def)

text \<open>
  C3, as the code has it: after \<open>jswrap_waveform_kill\<close> the active set is empty, whatever
  the cancellations returned; the Waveform objects are not written to (\<open>running\<close> keeps
  its value) and no event is queued.
\<close>

theorem kill_empties_active_set:
  "active_set (jswrap_waveform_kill ext s) = []
   \<and> objs (jswrap_waveform_kill ext s) = objs s
   \<and> queue (jswrap_waveform_kill ext s) = queue s"
  by (cases "waveforms s") (simp_all add: jswrap_waveform_kill_def active_set_def kill_loop_frame)

theorem kill_empties_active_set_witness:
  "active_set single_started = [10]
   \<and> active_set (jswrap_waveform_kill (stuck_timer 4) single_started) = []
   \<and> objs (jswrap_waveform_kill (stuck_timer 4) single_started) 10 = objs single_started 10"
proof -
  have "active_set single_started = [10]" by (simp add: single_started_eval active_set_def)
  with kill_empties_active_set[of "stuck_timer 4" single_started] show ?thesis by simp
qed

text \<open>
  A Waveform that was running when the handler ran is out of the active set, its task is
  cancelled, and \<open>running\<close> is still true.
\<close>

theorem kill_counterexample:
  "w_running (objs single_started 10)
   \<and> active_set single_started = [10]
   \<and> active_set (jswrap_waveform_kill (slot_timer 4) single_started) = []
   \<and> timer (jswrap_waveform_kill (slot_timer 4) single_started) = []
   \<and> w_running (objs (jswrap_waveform_kill (slot_timer 4) single_started) 10)"
  by (simp add: single_started_eval jswrap_waveform_kill_def jswrap_waveform_getBuffer_def
      jsErrorMsg_def slot_timer_def refers_to_def active_set_def Let_def)

section \<open>Properties of the software interrupt driver\<close>

declare alloc_loop.simps [simp del]

lemma bit_3F: "bit (0x3F :: 32 word) i \<Longrightarrow> i < 6"
proof -
  assume a: "bit (0x3F :: 32 word) i"
  have "(0x3F :: 32 word) = mask 6" by (simp add: mask_eq_exp_minus_1)
  with a have "bit (mask 6 :: 32 word) i" by simp
  then show ?thesis by (simp add: bit_mask_iff)
qed

lemma avail_lt6: "AVAILABLE_SWI c AND push_bit i 1 \<noteq> 0 \<Longrightarrow> i < 6"
proof -
  assume a: "AVAILABLE_SWI c AND push_bit i 1 \<noteq> 0"
  then have "AVAILABLE_SWI c AND 2 ^ i \<noteq> 0" by simp
  then have "bit (AVAILABLE_SWI c) i" by (simp add: and_exp_eq_0_iff_not_bit)
  then have "bit (0x3F :: 32 word) i" unfolding AVAILABLE_SWI_def by (simp only: bit_and_iff)
  then show ?thesis by (rule bit_3F)
qed

lemma alloc_loop_none:
  "\<forall>j. i \<le> j \<and> j < SWI_COUNT c \<longrightarrow> \<not> swi_free c st j \<Longrightarrow> SWI_START_NUMBER c \<le> i \<Longrightarrow>
   alloc_loop c h pr i st p = (NRF_ERROR_NO_MEM, st, p)"
proof (induction c h pr i st p rule: alloc_loop.induct)
  case (1 c h pr i st p)
  show ?case
  proof (cases "i < SWI_COUNT c")
    case True
    with "1.prems" have nf: "\<not> swi_free c st i" by simp
    with True "1.prems" have nc: "\<not> (\<not> swi_is_allocated c st i \<and> AVAILABLE_SWI c AND push_bit i 1 \<noteq> 0)"
      by (simp add: swi_free_def)
    have rec: "alloc_loop c h pr (i + 1) st p = (NRF_ERROR_NO_MEM, st, p)"
      using "1.IH"[OF True nc] "1.prems" by simp
    show ?thesis by (subst alloc_loop.simps) (use rec True nc in auto)
  next
    case False
    show ?thesis by (subst alloc_loop.simps) (use False in simp)
  qed
qed

lemma alloc_loop_some:
  "swi_free c st k \<Longrightarrow> i \<le> k \<Longrightarrow> SWI_START_NUMBER c \<le> i \<Longrightarrow>
   \<forall>j. i \<le> j \<and> j < k \<longrightarrow> \<not> swi_free c st j \<Longrightarrow>
   alloc_loop c h pr i st p =
     (NRF_SUCCESS,
      st\<lparr>m_swi_handlers := (m_swi_handlers st)[k - SWI_START_NUMBER c := h],
         irq_enabled := irq_enabled st @ [(nrf_drv_swi_irq_of c k, pr)]\<rparr>, k)"
proof (induction c h pr i st p rule: alloc_loop.induct)
  case (1 c h pr i st p)
  from "1.prems" have kc: "k < SWI_COUNT c" by (simp add: swi_free_def)
  with "1.prems" have ic: "i < SWI_COUNT c" by simp
  show ?case
  proof (cases "i = k")
    case True
    from "1.prems"(1) have "k < 6" using avail_lt6[of c k] by (simp add: swi_free_def)
    then have m: "k mod 256 = k" by simp
    show ?thesis
      by (subst alloc_loop.simps) (use m True "1.prems"(1) ic in \<open>simp add: swi_free_def\<close>)
  next
    case False
    with "1.prems" have lt: "i < k" by simp
    with "1.prems" have nf: "\<not> swi_free c st i" by simp
    with ic "1.prems" have nc: "\<not> (\<not> swi_is_allocated c st i \<and> AVAILABLE_SWI c AND push_bit i 1 \<noteq> 0)"
      by (simp add: swi_free_def)
    have rec: "alloc_loop c h pr (i + 1) st p =
     (NRF_SUCCESS,
      st\<lparr>m_swi_handlers := (m_swi_handlers st)[k - SWI_START_NUMBER c := h],
         irq_enabled := irq_enabled st @ [(nrf_drv_swi_irq_of c k, pr)]\<rparr>, k)"
      using "1.IH"[OF ic nc] "1.prems" lt by simp
    show ?thesis by (subst alloc_loop.simps) (use rec ic nc in auto)
  qed
qed

text \<open>
  C9: given a handler that is not \<open>NULL\<close> and a handler table of the configured size,
  \<open>nrf_drv_swi_alloc\<close> returns \<open>NRF_SUCCESS\<close> when some index from
  \<open>SWI_START_NUMBER\<close> up to \<open>SWI_COUNT\<close> is unallocated and enabled in
  \<open>AVAILABLE_SWI\<close>: it stores such an index (the lowest) into \<open>*p_swi\<close> and installs the
  handler there, which marks the index allocated. When there is no such index it returns
  \<open>NRF_ERROR_NO_MEM\<close> and changes neither the handler table nor \<open>*p_swi\<close>.
\<close>

theorem nrf_drv_swi_alloc_free_index:
  assumes "event_handler \<noteq> 0"
    and "length (m_swi_handlers st) = SWI_ARRAY_SIZE c"
  shows "((\<exists>i. swi_free c st i) \<longrightarrow>
            (\<exists>i. swi_free c st i \<and> (\<forall>j. swi_free c st j \<longrightarrow> i \<le> j)
               \<and> nrf_drv_swi_alloc c st p_swi event_handler priority =
                   (NRF_SUCCESS,
                    st\<lparr>m_swi_handlers :=
                         (m_swi_handlers st)[i - SWI_START_NUMBER c := event_handler],
                       irq_enabled :=
                         irq_enabled st @ [(nrf_drv_swi_irq_of c i, priority)]\<rparr>,
                    i)
               \<and> swi_is_allocated c
                   (fst (snd (nrf_drv_swi_alloc c st p_swi event_handler priority))) i))
       \<and> (\<not> (\<exists>i. swi_free c st i) \<longrightarrow>
            nrf_drv_swi_alloc c st p_swi event_handler priority = (NRF_ERROR_NO_MEM, st, p_swi))"
proof (intro conjI impI)
  assume ex: "\<exists>i. swi_free c st i"
  define k where "k = (LEAST i. swi_free c st i)"
  from ex have fk: "swi_free c st k" unfolding k_def by (auto intro: LeastI)
  have least: "\<forall>j. swi_free c st j \<longrightarrow> k \<le> j"
    unfolding k_def by (auto intro: Least_le)
  then have below: "\<forall>j. SWI_START_NUMBER c \<le> j \<and> j < k \<longrightarrow> \<not> swi_free c st j"
    by auto
  from fk have rng: "SWI_START_NUMBER c \<le> k" "k < SWI_COUNT c" by (simp_all add: swi_free_def)
  have run: "nrf_drv_swi_alloc c st p_swi event_handler priority =
      (NRF_SUCCESS,
       st\<lparr>m_swi_handlers := (m_swi_handlers st)[k - SWI_START_NUMBER c := event_handler],
          irq_enabled := irq_enabled st @ [(nrf_drv_swi_irq_of c k, priority)]\<rparr>, k)"
    unfolding nrf_drv_swi_alloc_def using alloc_loop_some[OF fk rng(1) order_refl below] .
  from rng assms(2) have "k - SWI_START_NUMBER c < length (m_swi_handlers st)"
    by (simp add: SWI_ARRAY_SIZE_def)
  with assms(1) rng have "swi_is_allocated c
      (fst (snd (nrf_drv_swi_alloc c st p_swi event_handler priority))) k"
    by (simp add: run swi_is_allocated_def)
  with fk run least show "\<exists>i. swi_free c st i \<and> (\<forall>j. swi_free c st j \<longrightarrow> i \<le> j)
               \<and> nrf_drv_swi_alloc c st p_swi event_handler priority =
                   (NRF_SUCCESS,
                    st\<lparr>m_swi_handlers :=
                         (m_swi_handlers st)[i - SWI_START_NUMBER c := event_handler],
                       irq_enabled :=
                         irq_enabled st @ [(nrf_drv_swi_irq_of c i, priority)]\<rparr>,
                    i)
               \<and> swi_is_allocated c
                   (fst (snd (nrf_drv_swi_alloc c st p_swi event_handler priority))) i"
    by blast
next
  assume "\<not> (\<exists>i. swi_free c st i)"
  then have "\<forall>j. SWI_START_NUMBER c \<le> j \<and> j < SWI_COUNT c \<longrightarrow> \<not> swi_free c st j" by simp
  then show "nrf_drv_swi_alloc c st p_swi event_handler priority = (NRF_ERROR_NO_MEM, st, p_swi)"
    unfolding nrf_drv_swi_alloc_def by (rule alloc_loop_none) simp
qed

lemma config4_values:
  "SWI_START_NUMBER config4 = 1" "SWI_ARRAY_SIZE config4 = 3" "SWI_COUNT config4 = 4"
  "AVAILABLE_SWI config4 = 0xE" "SWI0_IRQn config4 = 20"
  by (simp_all add: SWI_START_NUMBER_def SWI_ARRAY_SIZE_def config4_def SWI_DISABLE_def
      AVAILABLE_SWI_def)

lemma swi_free_state0: "swi_free config4 swi_state0 1"
  by (simp add: swi_free_def swi_is_allocated_def swi_state0_def config4_values)

lemma swi_free_state_full: "\<not> swi_free config4 swi_state_full i"
  by (cases "i = 1"; cases "i = 2"; cases "i = 3")
    (simp_all add: swi_free_def swi_is_allocated_def swi_state_full_def config4_values)

theorem nrf_drv_swi_alloc_free_index_witness:
  "(7::nat) \<noteq> 0
   \<and> length (m_swi_handlers swi_state0) = SWI_ARRAY_SIZE config4
   \<and> length (m_swi_handlers swi_state_full) = SWI_ARRAY_SIZE config4
   \<and> swi_free config4 swi_state0 1
   \<and> nrf_drv_swi_alloc config4 swi_state0 255 7 3 =
       (NRF_SUCCESS, swi_state0\<lparr>m_swi_handlers := [7, 0, 0], irq_enabled := [(21, 3)]\<rparr>, 1)
   \<and> \<not> (\<exists>i. swi_free config4 swi_state_full i)
   \<and> nrf_drv_swi_alloc config4 swi_state_full 255 7 3 = (NRF_ERROR_NO_MEM, swi_state_full, 255)"
proof -
  have h: "(7::nat) \<noteq> 0" by simp
  have l0: "length (m_swi_handlers swi_state0) = SWI_ARRAY_SIZE config4"
    by (simp add: swi_state0_def config4_values)
  have lf: "length (m_swi_handlers swi_state_full) = SWI_ARRAY_SIZE config4"
    by (simp add: swi_state_full_def config4_values)
  have ex: "\<exists>i. swi_free config4 swi_state0 i" using swi_free_state0 by blast
  have nex: "\<not> (\<exists>i. swi_free config4 swi_state_full i)" using swi_free_state_full by blast
  from nrf_drv_swi_alloc_free_index[OF h l0, of 255 3] ex
  obtain i where i: "swi_free config4 swi_state0 i" "\<forall>j. swi_free config4 swi_state0 j \<longrightarrow> i \<le> j"
    and run: "nrf_drv_swi_alloc config4 swi_state0 255 7 3 =
      (NRF_SUCCESS,
       swi_state0\<lparr>m_swi_handlers :=
         (m_swi_handlers swi_state0)[i - SWI_START_NUMBER config4 := 7],
         irq_enabled := irq_enabled swi_state0 @ [(nrf_drv_swi_irq_of config4 i, 3)]\<rparr>, i)"
    by blast
  from i(2) swi_free_state0 have "i \<le> 1" by blast
  moreover from i(1) have "1 \<le> i" by (simp add: swi_free_def config4_values)
  ultimately have "i = 1" by simp
  with run have r0: "nrf_drv_swi_alloc config4 swi_state0 255 7 3 =
       (NRF_SUCCESS, swi_state0\<lparr>m_swi_handlers := [7, 0, 0], irq_enabled := [(21, 3)]\<rparr>, 1)"
    by (simp add: config4_values swi_state0_def nrf_drv_swi_irq_of_def)
  from nrf_drv_swi_alloc_free_index[OF h lf, of 255 3] nex
  have rf: "nrf_drv_swi_alloc config4 swi_state_full 255 7 3 = (NRF_ERROR_NO_MEM, swi_state_full, 255)"
    by blast
  from h l0 lf swi_free_state0 r0 nex rf show ?thesis by blast
qed

text \<open>
  C10: called in the uninitialized state, \<open>nrf_drv_swi_init\<close> returns \<open>NRF_SUCCESS\<close> and
  the driver is initialized afterwards; called in any other state it returns
  \<open>MODULE_ALREADY_INITIALIZED\<close> and leaves the driver's state as it is.
\<close>

theorem nrf_drv_swi_init_states:
  "(m_drv_state st = NRF_DRV_STATE_UNINITIALIZED \<longrightarrow>
      nrf_drv_swi_init st = (NRF_SUCCESS, st\<lparr>m_drv_state := NRF_DRV_STATE_INITIALIZED\<rparr>))
   \<and> (m_drv_state st \<noteq> NRF_DRV_STATE_UNINITIALIZED \<longrightarrow>
      nrf_drv_swi_init st = (MODULE_ALREADY_INITIALIZED, st))"
  by (simp add: nrf_drv_swi_init_def)

theorem nrf_drv_swi_init_states_witness:
  "m_drv_state swi_state0 = NRF_DRV_STATE_UNINITIALIZED
   \<and> nrf_drv_swi_init swi_state0 =
       (NRF_SUCCESS, swi_state0\<lparr>m_drv_state := NRF_DRV_STATE_INITIALIZED\<rparr>)
   \<and> m_drv_state (snd (nrf_drv_swi_init swi_state0)) \<noteq> NRF_DRV_STATE_UNINITIALIZED
   \<and> nrf_drv_swi_init (snd (nrf_drv_swi_init swi_state0)) =
       (MODULE_ALREADY_INITIALIZED, snd (nrf_drv_swi_init swi_state0))"
proof -
  have u: "m_drv_state swi_state0 = NRF_DRV_STATE_UNINITIALIZED" by (simp add: swi_state0_def)
  with nrf_drv_swi_init_states[of swi_state0]
  have first: "nrf_drv_swi_init swi_state0 =
       (NRF_SUCCESS, swi_state0\<lparr>m_drv_state := NRF_DRV_STATE_INITIALIZED\<rparr>)" by blast
  then have i: "m_drv_state (snd (nrf_drv_swi_init swi_state0)) \<noteq> NRF_DRV_STATE_UNINITIALIZED"
    by simp
  with nrf_drv_swi_init_states[of "snd (nrf_drv_swi_init swi_state0)"]
  have "nrf_drv_swi_init (snd (nrf_drv_swi_init swi_state0)) =
       (MODULE_ALREADY_INITIALIZED, snd (nrf_drv_swi_init swi_state0))" by blast
  with u first i show ?thesis by blast
qed

end
